theory Spec2Isabelle
  imports Main "HOL-Library.AList"
begin

section \<open>Exceptions\<close>

text \<open>
  The exception classes of \<^verbatim>\<open>__zipper__.py\<close> and \<^verbatim>\<open>__parsing__.py\<close>, and the
  built-in ones the modelled code can raise. \<open>ParseError orig reason\<close> carries the two
  attributes the class stores; \<open>EndOfAddressError orig reason\<close> stores the reason its
  constructor hands to \<open>ParseError.__init__\<close>, that is the argument followed by
  \<^verbatim>\<open>": end of input"\<close>. \<open>EndOfInputError\<close> is always raised with its default
  \<open>orig\<close>, so the model drops that attribute.
\<close>

datatype error =
    EndOfInputError
  | Uncatchable
  | ParseError string string
  | EndOfAddressError string string
  | ParserConfigError string
  | IndexError
  | KeyError string
  | AssertionError
  | OtherError string

datatype exc_class =
    C_EndOfInputError
  | C_Uncatchable
  | C_ParseError
  | C_EndOfAddressError
  | C_ParserConfigError

text \<open>\<open>isinstance e c\<close>: \<open>EndOfAddressError\<close> is a subclass of \<open>ParseError\<close>; the other
  classes derive from \<open>Exception\<close> directly.\<close>

fun isinstance :: "error \<Rightarrow> exc_class \<Rightarrow> bool" where
  "isinstance EndOfInputError C_EndOfInputError = True"
| "isinstance Uncatchable C_Uncatchable = True"
| "isinstance (ParseError orig reason) C_ParseError = True"
| "isinstance (EndOfAddressError orig reason) C_ParseError = True"
| "isinstance (EndOfAddressError orig reason) C_EndOfAddressError = True"
| "isinstance (ParserConfigError msg) C_ParserConfigError = True"
| "isinstance e c = False"

text \<open>\<^verbatim>\<open>except tuple(ex_types)\<close> catches \<open>e\<close> when it is an instance of one of the classes.\<close>

definition caught :: "exc_class list \<Rightarrow> error \<Rightarrow> bool" where
  "caught ex_types e = list_ex (isinstance e) ex_types"

text \<open>The default \<^verbatim>\<open>ex_types = [Uncatchable]\<close> of every combinator.\<close>

definition default_ex_types :: "exc_class list" where
  "default_ex_types = [C_Uncatchable]"

section \<open>Python list indexing and slicing\<close>

text \<open>\<^verbatim>\<open>xs[i]\<close>: a negative index counts from the end, an index out of range raises.\<close>

definition py_index :: "'a list \<Rightarrow> int \<Rightarrow> error + 'a" where
  "py_index xs i =
     (if 0 \<le> i \<and> i < int (length xs) then Inr (xs ! nat i)
      else if i < 0 \<and> - int (length xs) \<le> i then Inr (xs ! nat (int (length xs) + i))
      else Inl IndexError)"

text \<open>\<^verbatim>\<open>xs[lo:hi]\<close>: each bound is taken from the end when negative and clamped to the
  list; an empty range gives the empty list.\<close>

definition py_bound :: "'a list \<Rightarrow> int \<Rightarrow> nat" where
  "py_bound xs i =
     (let n = int (length xs)
      in if i < 0 then nat (max (n + i) 0) else nat (min i n))"

definition py_slice :: "'a list \<Rightarrow> int \<Rightarrow> int \<Rightarrow> 'a list" where
  "py_slice xs lo hi = drop (py_bound xs lo) (take (py_bound xs hi) xs)"

section \<open>GenericInput: the positional token view\<close>

record 'i GenericInput =
  data :: "'i list"
  state :: int

definition item :: "'i GenericInput \<Rightarrow> error + 'i" where
  "item c =
     (if state c + 1 > int (length (data c)) then Inl EndOfInputError
      else py_index (data c) (state c))"

definition advance :: "'i GenericInput \<Rightarrow> int \<Rightarrow> error + 'i GenericInput" where
  "advance c step =
     (let new_state = state c + step
      in if new_state > int (length (data c)) then Inl EndOfInputError
         else Inr \<lparr>data = data c, state = new_state\<rparr>)"

definition rest :: "'i GenericInput \<Rightarrow> 'i GenericInput" where
  "rest c = \<lparr>data = data c, state = state c + 1\<rparr>"

definition empty_input :: "'i GenericInput \<Rightarrow> bool" where
  "empty_input c = (state c + 1 > int (length (data c)))"

section \<open>Result sequences: lists and generators\<close>

text \<open>
  \<open>Zipper.results\<close> is an iterable. It is either a list, which can be iterated any
  number of times, or the generator object that \<open>Zipper.merge\<close> creates:
  \<^verbatim>\<open>
  def r():
      yield from self.results
      yield from other.results
  \<close>
  A generator object has an identity and one bit of state that matters here: once it
  has run to its end it yields nothing more. \<open>Gen g a b\<close> is the generator object at
  address \<open>g\<close> whose closure holds the result sequences \<open>a\<close> and \<open>b\<close> (attributes that
  are never reassigned). The heap records, for each allocated generator, whether it is
  exhausted; its length is the next free address.
\<close>

datatype 'o iter = Lst "'o list" | Gen nat "'o iter" "'o iter"

type_synonym heap = "bool list"

definition exhausted :: "heap \<Rightarrow> nat \<Rightarrow> bool" where
  "exhausted h g = (g < length h \<and> h ! g)"

text \<open>\<^verbatim>\<open>list(it)\<close>, or a \<^verbatim>\<open>for\<close> loop that runs to the end: the items \<open>it\<close> yields
  now, and the heap afterwards. Iterating a list leaves the heap alone; a generator
  drains its two sequences in order and is exhausted from then on.\<close>

fun drain :: "'o iter \<Rightarrow> heap \<Rightarrow> 'o list \<times> heap" where
  "drain (Lst xs) h = (xs, h)"
| "drain (Gen g a b) h =
     (if exhausted h g then ([], h)
      else (case drain a h of (xs, h1) \<Rightarrow>
              (case drain b h1 of (ys, h2) \<Rightarrow> (xs @ ys, h2[g := True]))))"

section \<open>Zipper: the combinator engine\<close>

record ('i, 'o) Zipper =
  leftover :: "'i GenericInput"
  results :: "'o iter"

text \<open>\<open>Zipper(leftover)\<close> with the default \<^verbatim>\<open>results = []\<close>.\<close>

definition Zipper_new :: "'i GenericInput \<Rightarrow> ('i, 'o) Zipper" where
  "Zipper_new l = \<lparr>leftover = l, results = Lst []\<rparr>"

text \<open>\<open>merge\<close> allocates the generator \<open>r()\<close> at the next free address; nothing is
  iterated yet.\<close>

definition merge :: "('i, 'o) Zipper \<Rightarrow> ('i, 'o) Zipper \<Rightarrow> heap \<Rightarrow> ('i, 'o) Zipper \<times> heap" where
  "merge self other h =
     (\<lparr>leftover = leftover other, results = Gen (length h) (results self) (results other)\<rparr>,
      h @ [False])"

definition realize :: "('i, 'o) Zipper \<Rightarrow> heap \<Rightarrow> ('i, 'o) Zipper \<times> heap" where
  "realize self h =
     (case drain (results self) h of (xs, h') \<Rightarrow> (\<lparr>leftover = leftover self, results = Lst xs\<rparr>, h'))"

definition successful :: "('i, 'o) Zipper \<Rightarrow> heap \<Rightarrow> bool \<times> heap" where
  "successful self h =
     (case realize self h of (z, h') \<Rightarrow>
        (case drain (results z) h' of (xs, h'') \<Rightarrow> (length xs > 0, h'')))"

definition chomp_n ::
  "('i, 'o) Zipper \<Rightarrow> int \<Rightarrow> ('i list \<Rightarrow> error + 'o list) \<Rightarrow> exc_class list \<Rightarrow> heap
     \<Rightarrow> error + (('i, 'o) Zipper \<times> heap)" where
  "chomp_n self n list_func ex_types h =
     (let st = state (leftover self);
          args = py_slice (data (leftover self)) st (st + n)
      in case list_func args of
           Inl e \<Rightarrow> if caught ex_types e then Inr (self, h) else Inl e
         | Inr rs \<Rightarrow>
             (case advance (leftover self) n of
                Inl e \<Rightarrow> if caught ex_types e then Inr (self, h) else Inl e
              | Inr lo \<Rightarrow> Inr (merge self \<lparr>leftover = lo, results = Lst rs\<rparr> h)))"

fun or_z ::
  "('i, 'o) Zipper \<Rightarrow> ('i \<Rightarrow> error + 'o list) list \<Rightarrow> exc_class list \<Rightarrow> heap
     \<Rightarrow> error + (('i, 'o) Zipper \<times> heap)" where
  "or_z self [] ex_types h = Inr (self, h)"
| "or_z self (func # funcs) ex_types h =
     (case item (leftover self) of
        Inl e \<Rightarrow> if caught ex_types e then or_z self funcs ex_types h else Inl e
      | Inr i \<Rightarrow>
          (case func i of
             Inl e \<Rightarrow> if caught ex_types e then or_z self funcs ex_types h else Inl e
           | Inr rs \<Rightarrow>
               if length rs > 0 then
                 (case advance (leftover self) 1 of
                    Inl e \<Rightarrow> if caught ex_types e then or_z self funcs ex_types h else Inl e
                  | Inr lo \<Rightarrow> Inr (merge self \<lparr>leftover = lo, results = Lst rs\<rparr> h))
               else or_z self funcs ex_types h))"

text \<open>
  The loop of \<open>takewhile\<close> over \<^verbatim>\<open>for i in self.leftover\<close>: \<open>InputIter.__next__\<close>
  reads \<open>item()\<close>, turns \<open>EndOfInputError\<close> into the end of the iteration, lets any
  other error out, and moves to \<open>rest()\<close>. The loop returns the count \<open>n\<close> and the
  accumulated results.
\<close>

function takewhile_loop ::
  "('i \<Rightarrow> error + 'o list) \<Rightarrow> exc_class list \<Rightarrow> 'i GenericInput \<Rightarrow> int \<Rightarrow> 'o list
     \<Rightarrow> error + (int \<times> 'o list)" where
  "takewhile_loop pred_arrow ex_types inp n rs =
     (case item inp of
        Inl e \<Rightarrow> if e = EndOfInputError then Inr (n, rs) else Inl e
      | Inr i \<Rightarrow>
          (case pred_arrow i of
             Inl e \<Rightarrow> if caught ex_types e then Inr (n, rs) else Inl e
           | Inr new_results \<Rightarrow>
               if length new_results = 0 then Inr (n, rs)
               else takewhile_loop pred_arrow ex_types (rest inp) (n + 1) (rs @ new_results)))"
  by pat_completeness auto
termination
  by (relation "measure (\<lambda>(p, ex, inp, n, rs). nat (int (length (data inp)) - state inp))")
     (auto simp: item_def rest_def split: if_splits)

declare takewhile_loop.simps [simp del]

text \<open>With \<^verbatim>\<open>single=True\<close> the loop runs over the list \<^verbatim>\<open>[self.leftover.item()]\<close>,
  or over \<^verbatim>\<open>[]\<close> when \<open>item()\<close> raised an error of \<open>ex_types\<close>.\<close>

definition takewhile_single ::
  "('i \<Rightarrow> error + 'o list) \<Rightarrow> exc_class list \<Rightarrow> 'i GenericInput \<Rightarrow> error + (int \<times> 'o list)" where
  "takewhile_single pred_arrow ex_types inp =
     (case item inp of
        Inl e \<Rightarrow> if caught ex_types e then Inr (0, []) else Inl e
      | Inr i \<Rightarrow>
          (case pred_arrow i of
             Inl e \<Rightarrow> if caught ex_types e then Inr (0, []) else Inl e
           | Inr new_results \<Rightarrow>
               if length new_results = 0 then Inr (0, []) else Inr (1, [] @ new_results)))"

definition takewhile ::
  "('i, 'o) Zipper \<Rightarrow> ('i \<Rightarrow> error + 'o list) \<Rightarrow> bool \<Rightarrow> exc_class list \<Rightarrow> heap
     \<Rightarrow> error + (('i, 'o) Zipper \<times> heap)" where
  "takewhile self pred_arrow single ex_types h =
     (case (if single then takewhile_single pred_arrow ex_types (leftover self)
            else takewhile_loop pred_arrow ex_types (leftover self) 0 []) of
        Inl e \<Rightarrow> Inl e
      | Inr (n, rs) \<Rightarrow>
          (case advance (leftover self) n of
             Inl e \<Rightarrow> Inl e
           | Inr new_input \<Rightarrow> Inr (merge self \<lparr>leftover = new_input, results = Lst rs\<rparr> h)))"

definition consume_with ::
  "('i, 'o) Zipper \<Rightarrow> ('i \<Rightarrow> error + 'o list) \<Rightarrow> exc_class list \<Rightarrow> heap
     \<Rightarrow> error + (('i, 'o) Zipper \<times> heap)" where
  "consume_with self func ex_types h = takewhile self func True ex_types h"


subsection \<open>The functions of the module's own test\<close>

text \<open>\<open>fan_odd\<close>, \<open>fan_even\<close> and \<open>input\<close> of \<open>test()\<close> in \<^verbatim>\<open>__zipper__.py\<close>.\<close>

definition fan_odd :: "int \<Rightarrow> error + int list" where
  "fan_odd n = (if n mod 2 = 0 then Inr [] else Inr [n + 0, n + 1, n + 2])"

definition fan_even :: "int \<Rightarrow> error + int list" where
  "fan_even n = (if n mod 2 = 1 then Inr [] else Inr [n + 0, n + 1, n + 2])"

definition input :: "'i list \<Rightarrow> 'i GenericInput" where
  "input xs = \<lparr>data = xs, state = 0\<rparr>"

subsection \<open>Apply\<close>

text \<open>
  Modelled from the spec: the class \<open>Apply\<close> that \<^verbatim>\<open>__parsing__.py\<close> imports from
  \<^verbatim>\<open>__zipper__.py\<close> is not in the source at hand. Each of its functions wraps the
  Zipper method of the same name as a step from engine state to engine state, and
  \<open>reduce\<close> is the "sequential left-to-right application of a list of operators to one
  initial engine state". A step that raises ends the pipeline.
\<close>

type_synonym ('i, 'o) step = "('i, 'o) Zipper \<Rightarrow> heap \<Rightarrow> error + (('i, 'o) Zipper \<times> heap)"

definition Apply_consume_with :: "('i \<Rightarrow> error + 'o list) \<Rightarrow> exc_class list \<Rightarrow> ('i, 'o) step" where
  "Apply_consume_with func ex_types = (\<lambda>z h. consume_with z func ex_types h)"

definition Apply_takewhile ::
  "('i \<Rightarrow> error + 'o list) \<Rightarrow> bool \<Rightarrow> exc_class list \<Rightarrow> ('i, 'o) step" where
  "Apply_takewhile pred_arrow single ex_types = (\<lambda>z h. takewhile z pred_arrow single ex_types h)"

definition Apply_chomp_n ::
  "int \<Rightarrow> ('i list \<Rightarrow> error + 'o list) \<Rightarrow> exc_class list \<Rightarrow> ('i, 'o) step" where
  "Apply_chomp_n n list_func ex_types = (\<lambda>z h. chomp_n z n list_func ex_types h)"

fun Apply_reduce :: "('i, 'o) step list \<Rightarrow> ('i, 'o) step" where
  "Apply_reduce [] z h = Inr (z, h)"
| "Apply_reduce (f # fs) z h =
     (case f z h of Inl e \<Rightarrow> Inl e | Inr (z', h') \<Rightarrow> Apply_reduce fs z' h')"

text \<open>The step \<^verbatim>\<open>lambda z: z\<close>.\<close>

definition id_step :: "('i, 'o) step" where
  "id_step = (\<lambda>z h. Inr (z, h))"

section \<open>Python strings\<close>

text \<open>
  Strings are lists of 8-bit characters; the functions below are the \<open>str\<close> methods the
  parser calls, on ASCII. \<open>is_space\<close> is the whitespace of \<open>str.split()\<close> and
  \<open>str.strip()\<close>.
\<close>

definition is_space :: "char \<Rightarrow> bool" where
  "is_space c =
     (let n = (of_char c :: nat) in n = 32 \<or> (9 \<le> n \<and> n \<le> 13) \<or> (28 \<le> n \<and> n \<le> 31))"

fun split_acc :: "string \<Rightarrow> string \<Rightarrow> string list" where
  "split_acc cur [] = (if cur = [] then [] else [cur])"
| "split_acc cur (c # cs) =
     (if is_space c then (if cur = [] then split_acc [] cs else cur # split_acc [] cs)
      else split_acc (cur @ [c]) cs)"

definition split_ws :: "string \<Rightarrow> string list" where
  "split_ws s = split_acc [] s"

definition strip :: "string \<Rightarrow> string" where
  "strip s = rev (dropWhile is_space (rev (dropWhile is_space s)))"

fun join :: "string \<Rightarrow> string list \<Rightarrow> string" where
  "join sep [] = []"
| "join sep [x] = x"
| "join sep (x # y # ys) = x @ sep @ join sep (y # ys)"

definition upper_char :: "char \<Rightarrow> char" where
  "upper_char c =
     (let n = (of_char c :: nat) in if 97 \<le> n \<and> n \<le> 122 then char_of (n - 32) else c)"

definition upper :: "string \<Rightarrow> string" where
  "upper s = map upper_char s"

text \<open>\<^verbatim>\<open>s.replace(old, new)\<close>: the occurrences of \<open>old\<close> are found from left to right
  and do not overlap; the text put in is not searched again. With an empty \<open>old\<close>,
  \<open>new\<close> goes before every character and at the end.\<close>

function replace_str :: "string \<Rightarrow> string \<Rightarrow> string \<Rightarrow> string" where
  "replace_str old new [] = (if old = [] then new else [])"
| "replace_str old new (c # cs) =
     (if old = [] then new @ c # replace_str old new cs
      else if take (length old) (c # cs) = old
           then new @ replace_str old new (drop (length old) (c # cs))
           else c # replace_str old new cs)"
  by pat_completeness auto
termination
  by (relation "measure (\<lambda>(old, new, s). length s)") (auto simp: neq_Nil_conv)

section \<open>What the parser module imports and loads\<close>

text \<open>
  A compiled pattern is known by how the source builds it: \<open>Re src\<close> is
  \<^verbatim>\<open>re.compile(src)\<close> for a pattern written in the source, \<open>OrRe alts\<close> is
  \<^verbatim>\<open>re.compile(regex.or_(alts))\<close>. \<open>bs\<close> is the backslash.
\<close>

datatype pattern = Re string | OrRe "string list"

definition bs :: char where
  "bs = CHR 0x5C"

text \<open>
  The module \<^verbatim>\<open>__regex__\<close>, the word-list files, the constants of
  \<^verbatim>\<open>__address__\<close> and \<open>Address.from_dict\<close> are not in the source at hand, and
  \<^verbatim>\<open>re.sub\<close> is the standard library's. They are the fields of an environment that
  every definition below takes as its first argument:
  \<^item> \<open>rmatch s pat\<close> is \<^verbatim>\<open>regex.match(s, pat)\<close>, the matched text or \<open>None\<close>;
  \<^item> \<open>remove_punc\<close> and \<open>normalize_whitespace\<close> are the functions of \<^verbatim>\<open>__regex__\<close>;
  \<^item> \<open>re_sub pat repl s\<close> is \<^verbatim>\<open>re.sub(pat, repl, s)\<close>, where \<open>repl\<close> receives the
    matched text \<^verbatim>\<open>m.group(0)\<close>;
  \<^item> \<open>st_suffices\<close>, \<open>us_states\<close>, \<open>unit_types\<close> are the three word lists;
  \<^item> \<open>required\<close> and \<open>optional_fields\<close> are \<^verbatim>\<open>set(address.HARD_COMPONENTS)\<close> and
    \<^verbatim>\<open>set(address.SOFT_COMPONENTS)\<close> in the order in which the sets are iterated;
  \<^item> \<open>from_dict\<close> is \<open>Address.from_dict\<close>, and \<open>is_RawAddress\<close> the test of the
    \<^verbatim>\<open>assert\<close> that follows it.
\<close>

record 'a env =
  rmatch :: "string \<Rightarrow> pattern \<Rightarrow> string option"
  remove_punc :: "string \<Rightarrow> string"
  normalize_whitespace :: "string \<Rightarrow> string"
  re_sub :: "pattern \<Rightarrow> (string \<Rightarrow> string) \<Rightarrow> string \<Rightarrow> string"
  st_suffices :: "string list"
  us_states :: "string list"
  unit_types :: "string list"
  required :: "string list"
  optional_fields :: "string list"
  from_dict :: "(string \<times> string option) list \<Rightarrow> error + 'a"
  is_RawAddress :: "'a \<Rightarrow> bool"

text \<open>Modelled from the spec: \<open>HARD_COMPONENTS\<close> and \<open>SOFT_COMPONENTS\<close> of the missing
  \<^verbatim>\<open>__address__\<close>: "house_number, st_name, city, us_state must each have at least one
  collected value", "optional fields (st_suffix, st_NESW, unit, zip_code)".\<close>

definition HARD_COMPONENTS :: "string list" where
  "HARD_COMPONENTS = [''house_number'', ''st_name'', ''city'', ''us_state'']"

definition SOFT_COMPONENTS :: "string list" where
  "SOFT_COMPONENTS = [''st_suffix'', ''st_NESW'', ''unit'', ''zip_code'']"

text \<open>The truth value of an \<open>Opt[str]\<close> in an \<^verbatim>\<open>if\<close>: \<open>None\<close> and the empty string
  are false.\<close>

definition truthy :: "string option \<Rightarrow> bool" where
  "truthy m = (case m of None \<Rightarrow> False | Some v \<Rightarrow> v \<noteq> [])"

section \<open>Grammar atoms\<close>

datatype ParseStep = ParseStep (label: string) (val: string)

definition make_stops_on :: "'a env \<Rightarrow> pattern list \<Rightarrow> string \<Rightarrow> bool" where
  "make_stops_on E stop_patterns = (\<lambda>s. list_ex (\<lambda>pat. truthy (rmatch E s pat)) stop_patterns)"

datatype AddressComponent =
  AddressComponent (compiled_pattern: pattern) (label: string)
    (cont: "AddressComponent option") (optional: bool) (stops_on: "string \<Rightarrow> bool")

definition arrow_parse :: "'a env \<Rightarrow> AddressComponent \<Rightarrow> string \<Rightarrow> error + ParseStep list" where
  "arrow_parse E self s =
     (if stops_on self s then Inr []
      else (case rmatch E s (compiled_pattern self) of
              None \<Rightarrow> if optional self then Inr [] else Inl (ParseError s (AddressComponent.label self))
            | Some m \<Rightarrow> Inr [ParseStep (AddressComponent.label self) m]))"

definition then_cont :: "AddressComponent \<Rightarrow> AddressComponent \<Rightarrow> AddressComponent" where
  "then_cont self c =
     AddressComponent (compiled_pattern self) (AddressComponent.label self) (Some c)
       (optional self) (stops_on self)"

text \<open>The defaults of the named tuple: no continuation, not optional, a stop predicate
  that is always false.\<close>

definition component :: "pattern \<Rightarrow> string \<Rightarrow> AddressComponent" where
  "component pat lbl = AddressComponent pat lbl None False (\<lambda>s. False)"

definition st_suffix_R :: "'a env \<Rightarrow> pattern" where
  "st_suffix_R E = OrRe (st_suffices E)"

definition st_NESWs :: "string list" where
  "st_NESWs = [''NE'', ''NW'', ''SE'', ''SW'', ''N'', ''S'', ''E'', ''W'']"

definition st_NESW_R :: pattern where
  "st_NESW_R = OrRe st_NESWs"

definition us_state_R :: "'a env \<Rightarrow> pattern" where
  "us_state_R E = OrRe (us_states E)"

definition unit_R :: "'a env \<Rightarrow> pattern" where
  "unit_R E = OrRe (unit_types E)"

definition unit_identifier_R :: pattern where
  "unit_identifier_R =
     Re (bs # ''#?'' @ bs # ''s*('' @ bs # ''d+[A-Z]?|[A-Z]'' @ bs # ''d*)'')"

definition zip_code_R :: pattern where
  "zip_code_R = Re (bs # ''d{5}'')"

definition HOUSE_NUMBER :: "'a env \<Rightarrow> string \<Rightarrow> error + ParseStep list" where
  "HOUSE_NUMBER E = arrow_parse E (component (Re (''['' @ bs # ''d/]+'')) ''house_number'')"

text \<open>The component that \<open>__make_st_name__\<close> builds, and its rule.\<close>

definition st_name_component :: "'a env \<Rightarrow> pattern list \<Rightarrow> AddressComponent" where
  "st_name_component E known_cities =
     AddressComponent (Re (bs # ''w+'')) ''st_name'' None False
       (make_stops_on E ([st_suffix_R E, st_NESW_R, unit_R E] @ known_cities))"

definition make_st_name :: "'a env \<Rightarrow> pattern list \<Rightarrow> string \<Rightarrow> error + ParseStep list" where
  "make_st_name E known_cities = arrow_parse E (st_name_component E known_cities)"

definition chomp_unit :: "'a env \<Rightarrow> string list \<Rightarrow> error + ParseStep list" where
  "chomp_unit E words =
     (if length words \<noteq> 2 then Inl AssertionError
      else
        (let unit = (if words ! 0 = ''#'' then Some ''APT'' else rmatch E (words ! 0) (unit_R E));
             identifier = rmatch E (words ! 1) unit_identifier_R
         in case (unit, identifier) of
              (Some u, Some i) \<Rightarrow> Inr [ParseStep ''unit'' (u @ '' '' @ i)]
            | _ \<Rightarrow> Inr []))"

definition ST_NESW :: "'a env \<Rightarrow> string \<Rightarrow> error + ParseStep list" where
  "ST_NESW E = arrow_parse E (component st_NESW_R ''st_NESW'')"

definition ST_SUFFIX :: "'a env \<Rightarrow> string \<Rightarrow> error + ParseStep list" where
  "ST_SUFFIX E = arrow_parse E (component (st_suffix_R E) ''st_suffix'')"

definition US_STATE :: "'a env \<Rightarrow> string \<Rightarrow> error + ParseStep list" where
  "US_STATE E = arrow_parse E (component (us_state_R E) ''us_state'')"

definition ZIP_CODE :: "'a env \<Rightarrow> string \<Rightarrow> error + ParseStep list" where
  "ZIP_CODE E = arrow_parse E (component zip_code_R ''zip_code'')"

definition str_to_opt :: "string option \<Rightarrow> string option" where
  "str_to_opt s =
     (case s of None \<Rightarrow> None | Some t \<Rightarrow> if split_ws t = [] then None else Some t)"

definition city_repl :: "string \<Rightarrow> string" where
  "city_repl m = '' '' @ replace_str '' '' ''_'' (strip m) @ '' ''"


section \<open>Parser\<close>

text \<open>
  A \<open>Parser\<close> object: \<open>blank_parse\<close>, \<open>known_cities\<close>, \<open>known_cities_R\<close> and the two
  closures of \<open>__fns__\<close>. \<open>known_cities_R\<close> is \<open>None\<close> (the class attribute) until
  \<open>__init__\<close> assigns the compiled pattern.
\<close>

datatype Parser =
  Parser (blank_parse: "Parser option") (known_cities: "string list")
    (known_cities_R: "pattern option")
    (city: "string \<Rightarrow> error + ParseStep list") (st_name: "string \<Rightarrow> error + ParseStep list")

text \<open>\<open>__tokenize__\<close>, with \<open>self.known_cities_R\<close> as its second argument. A compiled
  pattern is a true value, so the substitution runs whenever the attribute is set.\<close>

definition tokenize :: "'a env \<Rightarrow> pattern option \<Rightarrow> string \<Rightarrow> string" where
  "tokenize E kcr s0 =
     (let s1 = replace_str '','' '' '' s0;
          s2 = normalize_whitespace E (upper (remove_punc E s1));
          s3 = replace_str ''#'' ''APT '' s2;
          s4 = replace_str ''APT APT'' ''APT'' s3
      in case kcr of None \<Rightarrow> s4 | Some r \<Rightarrow> re_sub E r city_repl s4)"

text \<open>
  \<open>__init__\<close> after the filter and the choice of \<open>blank_parse\<close>. The city names are
  normalised while \<open>self.known_cities_R\<close> is still \<open>None\<close>. The pattern object is a true
  value, so the street-name rule always gets \<open>[self.known_cities_R]\<close>.
\<close>

definition Parser_core :: "'a env \<Rightarrow> Parser option \<Rightarrow> string list \<Rightarrow> Parser" where
  "Parser_core E blank kc =
     (let normalized_cities = map (tokenize E None) kc;
          normalized_cities_B = map (replace_str '' '' (''['' @ bs # ''s_]'')) normalized_cities;
          kcr = OrRe normalized_cities_B;
          city_A = arrow_parse E
            (AddressComponent (OrRe (normalized_cities_B @ [bs # ''w+''])) ''city'' None False
               (make_stops_on E [us_state_R E, Re (bs # ''d+'')]));
          st_name_f = make_st_name E [kcr]
      in Parser blank kc (Some kcr)
           (\<lambda>s. case city_A s of
                   Inl e \<Rightarrow> Inl e
                 | Inr prs \<Rightarrow>
                     Inr (map (\<lambda>pr. ParseStep (ParseStep.label pr)
                                      (replace_str ''_'' '' '' (ParseStep.val pr))) prs))
           st_name_f)"

text \<open>\<open>Parser(known_cities)\<close>: empty names are dropped; a parser with cities holds a
  second parser built with none.\<close>

definition Parser_init :: "'a env \<Rightarrow> string list \<Rightarrow> Parser" where
  "Parser_init E known_cities0 =
     (let kc = filter (\<lambda>c. c \<noteq> []) known_cities0
      in Parser_core E (if kc \<noteq> [] then Some (Parser_core E None []) else None) kc)"

definition ex_types_p :: "exc_class list" where
  "ex_types_p = [C_ParseError]"

definition hn_nesw :: "'a env \<Rightarrow> Parser \<Rightarrow> (string, ParseStep) step list" where
  "hn_nesw E self =
     [Apply_consume_with (HOUSE_NUMBER E) ex_types_p,
      Apply_consume_with (ST_NESW E) ex_types_p,
      Apply_takewhile (st_name self) False ex_types_p,
      Apply_takewhile (ST_SUFFIX E) False ex_types_p,
      Apply_consume_with (ST_NESW E) ex_types_p]"

subsection \<open>Collecting the results\<close>

text \<open>A \<open>dict\<close> is an association list in insertion order: \<open>map_of\<close> reads a key,
  \<open>AList.update\<close> assigns one.\<close>

definition empty_buckets :: "(string \<times> string list) list" where
  "empty_buckets =
     [(''house_number'', []), (''st_name'', []), (''st_suffix'', []), (''st_NESW'', []),
      (''unit'', []), (''city'', []), (''us_state'', []), (''zip_code'', [])]"

fun fill_buckets ::
  "(string \<times> string list) list \<Rightarrow> ParseStep list \<Rightarrow> error + (string \<times> string list) list" where
  "fill_buckets d [] = Inr d"
| "fill_buckets d (p_r # rs) =
     (if ParseStep.label p_r \<noteq> ''junk'' then
        (case map_of d (ParseStep.label p_r) of
           None \<Rightarrow> Inl (KeyError (ParseStep.label p_r))
         | Some vs \<Rightarrow>
             fill_buckets (AList.update (ParseStep.label p_r) (vs @ [ParseStep.val p_r]) d) rs)
      else fill_buckets d rs)"

text \<open>The loop \<^verbatim>\<open>for req in self.required\<close>: the error it raises, if any.\<close>

fun check_required :: "string \<Rightarrow> (string \<times> string list) list \<Rightarrow> string list \<Rightarrow> error option" where
  "check_required s d [] = None"
| "check_required s d (req # reqs) =
     (case map_of d req of
        None \<Rightarrow> Some (KeyError req)
      | Some vs \<Rightarrow>
          if vs = [] then Some (ParseError s (''Could not identify '' @ req))
          else check_required s d reqs)"

fun optional_to_opt ::
  "(string \<times> string option) list \<Rightarrow> string list \<Rightarrow> error + (string \<times> string option) list" where
  "optional_to_opt str_d [] = Inr str_d"
| "optional_to_opt str_d (opt # opts) =
     (case map_of str_d opt of
        None \<Rightarrow> Inl (KeyError opt)
      | Some v \<Rightarrow> optional_to_opt (AList.update opt (str_to_opt v) str_d) opts)"

text \<open>\<open>__collect_results__\<close> from the line after the required-field check to its end.\<close>

definition build_address :: "'a env \<Rightarrow> string \<Rightarrow> (string \<times> string list) list \<Rightarrow> error + 'a" where
  "build_address E s d =
     (case map_of d ''unit'' of
        None \<Rightarrow> Inl (KeyError ''unit'')
      | Some units \<Rightarrow>
          (let d' = AList.update ''unit'' (map (replace_str ''#'' []) units) d;
               str_d = map (\<lambda>(field, values). (field, Some (join '' '' values))) d'
           in case optional_to_opt str_d (optional_fields E) of
                Inl e \<Rightarrow> Inl e
              | Inr str_d1 \<Rightarrow>
                  (let str_d2 = AList.update ''is_raw'' (Some ''true'') str_d1;
                       str_d3 = AList.update ''orig'' (Some s) str_d2
                   in case from_dict E str_d3 of
                        Inl e \<Rightarrow> Inl e
                      | Inr a \<Rightarrow> if is_RawAddress E a then Inr a else Inl AssertionError)))"

text \<open>\<open>__collect_results__\<close>; \<open>rs\<close> is what the loop \<^verbatim>\<open>for p_r in results\<close> reads.\<close>

definition collect_results :: "'a env \<Rightarrow> string \<Rightarrow> ParseStep list \<Rightarrow> bool \<Rightarrow> error + 'a" where
  "collect_results E s rs checked =
     (case fill_buckets empty_buckets rs of
        Inl e \<Rightarrow> Inl e
      | Inr d \<Rightarrow>
          (case (if checked then check_required s d (required E) else None) of
             Some e \<Rightarrow> Inl e
           | None \<Rightarrow> build_address E s d))"

subsection \<open>The call\<close>

fun reason :: "error \<Rightarrow> string" where
  "reason (ParseError orig r) = r"
| "reason (EndOfAddressError orig r) = r"
| "reason e = []"

text \<open>\<open>__call__\<close> from the tokenisation to the end of the \<^verbatim>\<open>try\<close> statement: the
  engine state the pipeline ends in, or the error the call raises.\<close>

definition pipeline ::
  "'a env \<Rightarrow> Parser \<Rightarrow> string \<Rightarrow> heap \<Rightarrow> error + ((string, ParseStep) Zipper \<times> heap)" where
  "pipeline E self s0 h =
     (let s = tokenize E (known_cities_R self) s0;
          unit = (if truthy (rmatch E s (unit_R E))
                  then Apply_chomp_n 2 (chomp_unit E) ex_types_p else id_step);
          dat = split_ws s;
          zip_code = (if dat \<noteq> [] \<and> truthy (rmatch E (last dat) zip_code_R)
                      then Apply_consume_with (ZIP_CODE E) ex_types_p else id_step);
          funcs = hn_nesw E self @
                  [unit,
                   Apply_takewhile (city self) False default_ex_types,
                   Apply_consume_with (US_STATE E) default_ex_types,
                   zip_code]
      in case Apply_reduce funcs (Zipper_new \<lparr>data = dat, state = 0\<rparr>) h of
           Inl e \<Rightarrow>
             if isinstance e C_EndOfInputError
             then Inl (EndOfAddressError s0 (''unknown'' @ '': end of input''))
             else if isinstance e C_ParseError then Inl (ParseError s0 (reason e))
             else Inl e
         | Inr zh \<Rightarrow> Inr zh)"

text \<open>\<open>__call__\<close>: the blank parser is tried first and any failure of it is dropped;
  what a failed attempt allocated is unreachable, so the call goes on from \<open>h\<close>.\<close>

fun call :: "'a env \<Rightarrow> Parser \<Rightarrow> string \<Rightarrow> bool \<Rightarrow> heap \<Rightarrow> error + 'a" where
  "call E (Parser bp kc kcr cty stn) s0 checked h =
     (case (case bp of
              None \<Rightarrow> None
            | Some b \<Rightarrow> (case call E b s0 checked h of Inl e \<Rightarrow> None | Inr a \<Rightarrow> Some a)) of
        Some a \<Rightarrow> Inr a
      | None \<Rightarrow>
          (case pipeline E (Parser bp kc kcr cty stn) s0 h of
             Inl e \<Rightarrow> Inl e
           | Inr (z, h') \<Rightarrow> collect_results E s0 (fst (drain (results z) h')) checked))"

section \<open>smart_batch\<close>

text \<open>
  \<open>smart_batch\<close> is a generator. What its caller sees is the sequence of values it
  yields and of calls to \<open>report_error\<close>, and then either the end of the iteration or an
  error. The parser \<open>p\<close> is any callable with a \<open>known_cities\<close> attribute; \<open>city_of\<close>
  reads \<^verbatim>\<open>a.city\<close>; \<open>Parser_new\<close> is the constructor call of pass 2, which may raise.
  The set \<open>cities\<close> is kept in insertion order.
\<close>

datatype 'a event = Yield 'a | Report error string

definition set_add :: "string \<Rightarrow> string list \<Rightarrow> string list" where
  "set_add c cs = (if c \<in> set cs then cs else cs @ [c])"

text \<open>Pass 1: the values yielded, the cities, the deferred strings, and the error that
  ended the loop, if one did.\<close>

fun pass1 ::
  "(string \<Rightarrow> error + 'a) \<Rightarrow> ('a \<Rightarrow> string) \<Rightarrow> string list \<Rightarrow> string list \<Rightarrow> string list
     \<Rightarrow> 'a list \<times> string list \<times> string list \<times> error option" where
  "pass1 p city_of [] cities errs = ([], cities, errs, None)"
| "pass1 p city_of (add # adds) cities errs =
     (case p add of
        Inr a \<Rightarrow>
          (case pass1 p city_of adds (set_add (city_of a) cities) errs of
             (ys, cities', errs', r) \<Rightarrow> (a # ys, cities', errs', r))
      | Inl e \<Rightarrow>
          if isinstance e C_EndOfInputError then pass1 p city_of adds cities (errs @ [add])
          else if isinstance e C_ParseError then pass1 p city_of adds cities (errs @ [add])
          else ([], cities, errs, Some e))"

text \<open>Pass 2; \<open>report_error e add\<close> returns the error the callback raises, if any.\<close>

fun pass2 ::
  "(string \<Rightarrow> error + 'a) \<Rightarrow> (error \<Rightarrow> string \<Rightarrow> error option) \<Rightarrow> string list
     \<Rightarrow> 'a event list \<times> error option" where
  "pass2 p report_error [] = ([], None)"
| "pass2 p report_error (add # errs) =
     (case p add of
        Inr a \<Rightarrow> (case pass2 p report_error errs of (evs, r) \<Rightarrow> (Yield a # evs, r))
      | Inl e \<Rightarrow>
          if isinstance e C_ParseError then
            (case report_error e add of
               Some e' \<Rightarrow> ([Report e add], Some e')
             | None \<Rightarrow> (case pass2 p report_error errs of (evs, r) \<Rightarrow> (Report e add # evs, r)))
          else ([], Some e))"

definition smart_batch ::
  "(string \<Rightarrow> error + 'a) \<Rightarrow> string list \<Rightarrow> (string list \<Rightarrow> error + (string \<Rightarrow> error + 'a))
     \<Rightarrow> ('a \<Rightarrow> string) \<Rightarrow> string list \<Rightarrow> (error \<Rightarrow> string \<Rightarrow> error option)
     \<Rightarrow> 'a event list \<times> error option" where
  "smart_batch p p_known_cities Parser_new city_of adds report_error =
     (case pass1 p city_of adds [] [] of
        (ys, cities, errs, Some e) \<Rightarrow> (map Yield ys, Some e)
      | (ys, cities, errs, None) \<Rightarrow>
          (case Parser_new (p_known_cities @ cities) of
             Inl e \<Rightarrow> (map Yield ys, Some e)
           | Inr p2 \<Rightarrow>
               (case pass2 p2 report_error errs of (evs, r) \<Rightarrow> (map Yield ys @ evs, r))))"

text \<open>The values a sequence of events yields.\<close>

fun yielded :: "'a event list \<Rightarrow> 'a list" where
  "yielded [] = []"
| "yielded (Yield a # evs) = a # yielded evs"
| "yielded (Report e s # evs) = yielded evs"

text \<open>The results of the inputs that \<open>p\<close> parses.\<close>

fun successes :: "(string \<Rightarrow> error + 'a) \<Rightarrow> string list \<Rightarrow> 'a list" where
  "successes p [] = []"
| "successes p (add # adds) =
     (case p add of Inr a \<Rightarrow> a # successes p adds | Inl e \<Rightarrow> successes p adds)"


section \<open>A concrete environment\<close>

text \<open>
  Modelled from the spec: the functions of the missing \<^verbatim>\<open>__regex__\<close> module and the
  word lists, as far as the spec describes them, for running the parser on concrete
  addresses.
  \<^item> A stop predicate asks "does this token fully match any of these alternative
    patterns", and the call "detects a unit-type token anywhere": an alternation
    matches the first whitespace-delimited token of the text that is one of its
    alternatives (an alternative \<^verbatim>\<open>\w+\<close> stands for any word).
  \<^item> The patterns written in the source match a whole token: \<^verbatim>\<open>[\d/]+\<close>,
    \<^verbatim>\<open>\w+\<close>, \<^verbatim>\<open>\d+\<close>, \<^verbatim>\<open>\d{5}\<close> and the unit identifier ("digits optionally
    followed by one letter, or a letter optionally followed by digits", after an
    optional \<^verbatim>\<open>#\<close>).
  \<^item> "punctuation stripping" keeps letters, digits, the underscore, whitespace and
    the characters \<^verbatim>\<open>#\<close> and \<^verbatim>\<open>/\<close> that later steps read; "whitespace collapsing"
    leaves single spaces between the tokens.
  \<^item> "each occurrence of a known city's name inside free text gets its internal
    spaces replaced by an underscore": the substitution rewrites the occurrences of
    each alternative, read with a space for every \<^verbatim>\<open>[\s_]\<close>.
  \<^item> The word lists are a sample; the address value is the dictionary itself.
\<close>

definition is_digit :: "char \<Rightarrow> bool" where
  "is_digit c = (let n = (of_char c :: nat) in 48 \<le> n \<and> n \<le> 57)"

definition is_upper_letter :: "char \<Rightarrow> bool" where
  "is_upper_letter c = (let n = (of_char c :: nat) in 65 \<le> n \<and> n \<le> 90)"

definition is_word_char :: "char \<Rightarrow> bool" where
  "is_word_char c =
     (let n = (of_char c :: nat)
      in (48 \<le> n \<and> n \<le> 57) \<or> (65 \<le> n \<and> n \<le> 90) \<or> (97 \<le> n \<and> n \<le> 122) \<or> n = 95)"

definition full_class :: "(char \<Rightarrow> bool) \<Rightarrow> string \<Rightarrow> string option" where
  "full_class P s = (if s \<noteq> [] \<and> list_all P s then Some s else None)"

definition spec_unit_identifier :: "string \<Rightarrow> string option" where
  "spec_unit_identifier s =
     (let t = (case s of c # cs \<Rightarrow> if c = CHR ''#'' then cs else s | [] \<Rightarrow> s);
          ds = takeWhile is_digit t;
          after = dropWhile is_digit t
      in if ds \<noteq> [] \<and> (after = [] \<or> (length after = 1 \<and> list_all is_upper_letter after))
         then Some s
         else (case t of
                 c # cs \<Rightarrow> if is_upper_letter c \<and> list_all is_digit cs then Some s else None
               | [] \<Rightarrow> None))"

definition spec_alt :: "string \<Rightarrow> string \<Rightarrow> bool" where
  "spec_alt t alt = (alt = t \<or> (alt = bs # ''w+'' \<and> t \<noteq> [] \<and> list_all is_word_char t))"

definition spec_match :: "string \<Rightarrow> pattern \<Rightarrow> string option" where
  "spec_match s pat =
     (case pat of
        OrRe alts \<Rightarrow> find (\<lambda>t. list_ex (spec_alt t) alts) (split_ws s)
      | Re src \<Rightarrow>
          if src = ''['' @ bs # ''d/]+'' then full_class (\<lambda>c. is_digit c \<or> c = CHR ''/'') s
          else if src = bs # ''w+'' then full_class is_word_char s
          else if src = bs # ''d+'' then full_class is_digit s
          else if Re src = zip_code_R then (if length s = 5 then full_class is_digit s else None)
          else if Re src = unit_identifier_R then spec_unit_identifier s
          else None)"

definition spec_remove_punc :: "string \<Rightarrow> string" where
  "spec_remove_punc s =
     filter (\<lambda>c. is_word_char c \<or> is_space c \<or> c = CHR ''#'' \<or> c = CHR ''/'') s"

definition spec_normalize_whitespace :: "string \<Rightarrow> string" where
  "spec_normalize_whitespace s = join '' '' (split_ws s)"

definition spec_re_sub :: "pattern \<Rightarrow> (string \<Rightarrow> string) \<Rightarrow> string \<Rightarrow> string" where
  "spec_re_sub pat repl s =
     (case pat of
        OrRe alts \<Rightarrow>
          foldl (\<lambda>t alt. let name = replace_str (''['' @ bs # ''s_]'') '' '' alt
                          in if name = [] then t else replace_str name (repl name) t) s alts
      | Re src \<Rightarrow> s)"

definition spec_env :: "(string \<times> string option) list env" where
  "spec_env =
     \<lparr>rmatch = spec_match,
      remove_punc = spec_remove_punc,
      normalize_whitespace = spec_normalize_whitespace,
      re_sub = spec_re_sub,
      st_suffices = [''ST'', ''AVE'', ''RD'', ''BLVD''],
      us_states = [''TX'', ''OH'', ''MI''],
      unit_types = [''APT'', ''STE'', ''TRLR'', ''UNIT''],
      required = HARD_COMPONENTS,
      optional_fields = SOFT_COMPONENTS,
      from_dict = Inr,
      is_RawAddress = (\<lambda>a. True)\<rparr>"


section \<open>Notions used in the statements\<close>

text \<open>The generator objects a result sequence reaches, and the heaps in which all of
  them are allocated.\<close>

fun gens :: "'o iter \<Rightarrow> nat list" where
  "gens (Lst xs) = []"
| "gens (Gen g a b) = g # gens a @ gens b"

definition allocated :: "heap \<Rightarrow> 'o iter \<Rightarrow> bool" where
  "allocated h it = list_all (\<lambda>g. g < length h) (gens it)"

definition agree :: "nat set \<Rightarrow> heap \<Rightarrow> heap \<Rightarrow> bool" where
  "agree S h h' = (length h = length h' \<and> (\<forall>g\<in>S. h ! g = h' ! g))"

text \<open>A parser followed by its blank parsers.\<close>

fun parsers_of :: "Parser \<Rightarrow> Parser list" where
  "parsers_of (Parser bp kc kcr cty stn) =
     Parser bp kc kcr cty stn # (case bp of None \<Rightarrow> [] | Some b \<Rightarrow> parsers_of b)"

text \<open>The errors that the two \<^verbatim>\<open>except\<close> clauses of pass 1 catch.\<close>

definition deferrable :: "error \<Rightarrow> bool" where
  "deferrable e = (isinstance e C_EndOfInputError \<or> isinstance e C_ParseError)"

text \<open>A rule that raises the sentinel of the default \<open>ex_types\<close>.\<close>

definition raise_uncatchable :: "int list \<Rightarrow> error + int list" where
  "raise_uncatchable ws = Inl Uncatchable"

text \<open>A parser object for running \<open>smart_batch\<close>: it returns its input as the parsed
  value and fails on three strings, one for each kind of error.\<close>

definition toy_parser :: "string \<Rightarrow> error + string" where
  "toy_parser s =
     (if s = ''a'' then Inl (ParserConfigError ''bad city list'')
      else if s = ''e'' then Inl EndOfInputError
      else if s = ''m'' then Inl (ParseError s ''st_name'')
      else Inr s)"

definition toy_Parser_new :: "string list \<Rightarrow> error + (string \<Rightarrow> error + string)" where
  "toy_Parser_new kc = Inr toy_parser"

definition toy_city :: "string \<Rightarrow> string" where
  "toy_city a = a"

definition no_report :: "error \<Rightarrow> string \<Rightarrow> error option" where
  "no_report e s = None"

section \<open>The positional token view\<close>

text \<open>
  C7. For every cursor, \<open>item()\<close> raises \<open>EndOfInputError\<close> exactly when the position is
  at or beyond the number of tokens; at a position inside the tokens (counted from 0)
  it returns the token at that position, and being a function of the cursor it changes
  nothing. For every \<open>n \<ge> 0\<close>, \<open>advance(n)\<close> raises \<open>EndOfInputError\<close> exactly when
  position + n exceeds the number of tokens; advancing to exactly the number of tokens
  succeeds, and the cursor it returns, over the same tokens, is \<open>empty()\<close>.
\<close>

theorem cursor_end_of_input_discipline:
  "(item c = Inl EndOfInputError \<longleftrightarrow> state c \<ge> int (length (data c)))
   \<and> (0 \<le> state c \<longrightarrow> state c < int (length (data c)) \<longrightarrow> item c = Inr (data c ! nat (state c)))
   \<and> (0 \<le> n \<longrightarrow> (advance c n = Inl EndOfInputError \<longleftrightarrow> state c + n > int (length (data c))))
   \<and> (0 \<le> n \<longrightarrow> state c + n = int (length (data c)) \<longrightarrow>
        (\<exists>c'. advance c n = Inr c' \<and> state c' = int (length (data c)) \<and> data c' = data c
              \<and> empty_input c'))"
  by (auto simp: item_def advance_def empty_input_def py_index_def Let_def)

theorem cursor_end_of_input_discipline_witness:
  "(0::int) \<le> state \<lparr>data = [''12'', ''MAIN''], state = 1\<rparr>
   \<and> state \<lparr>data = [''12'', ''MAIN''], state = 1\<rparr> < int (length [''12'', ''MAIN''])
   \<and> (0::int) \<le> 1
   \<and> state \<lparr>data = [''12'', ''MAIN''], state = 1\<rparr> + 1 = int (length [''12'', ''MAIN''])
   \<and> item \<lparr>data = [''12'', ''MAIN''], state = 1\<rparr> = Inr ''MAIN''
   \<and> advance \<lparr>data = [''12'', ''MAIN''], state = 1\<rparr> 1 \<noteq> Inl EndOfInputError
   \<and> (\<exists>c'. advance \<lparr>data = [''12'', ''MAIN''], state = 1\<rparr> 1 = Inr c' \<and> empty_input c')"
  using cursor_end_of_input_discipline [of "\<lparr>data = [''12'', ''MAIN''], state = 1\<rparr>" 1]
  by auto

section \<open>The combinator engine\<close>

subsection \<open>Draining and the heap\<close>

lemma drain_length: "length (snd (drain it h)) = length h"
proof (induction it arbitrary: h)
  case (Lst xs)
  show ?case by simp
next
  case (Gen g a b)
  obtain xs h1 where da: "drain a h = (xs, h1)" by (cases "drain a h")
  obtain ys h2 where db: "drain b h1 = (ys, h2)" by (cases "drain b h1")
  have "length h1 = length h" using Gen.IH(1) [of h] da by simp
  moreover have "length h2 = length h1" using Gen.IH(2) [of h1] db by simp
  ultimately show ?case by (simp add: da db)
qed

text \<open>Allocating more generators does not change what an allocated sequence yields.\<close>

lemma drain_append:
  "allocated h it \<Longrightarrow> drain it (h @ ext) = (fst (drain it h), snd (drain it h) @ ext)"
proof (induction it arbitrary: h)
  case (Lst xs)
  show ?case by simp
next
  case (Gen g a b)
  from Gen.prems have g: "g < length h" and a: "allocated h a" and b: "allocated h b"
    by (simp_all add: allocated_def)
  obtain xs h1 where da: "drain a h = (xs, h1)" by (cases "drain a h")
  obtain ys h2 where db: "drain b h1 = (ys, h2)" by (cases "drain b h1")
  have l1: "length h1 = length h" using drain_length [of a h] da by simp
  have l2: "length h2 = length h" using drain_length [of b h1] db l1 by simp
  have b1: "allocated h1 b" using b l1 by (simp add: allocated_def)
  have ea: "drain a (h @ ext) = (xs, h1 @ ext)" using Gen.IH(1) [OF a] da by simp
  have eb: "drain b (h1 @ ext) = (ys, h2 @ ext)" using Gen.IH(2) [OF b1] db by simp
  have ex: "exhausted (h @ ext) g = exhausted h g"
    using g by (simp add: exhausted_def nth_append)
  show ?case
    using g l2 by (simp add: ex da db ea eb list_update_append1)
qed

text \<open>Draining a sequence touches only the generators it reaches.\<close>

lemma drain_frame: "g \<notin> set (gens it) \<Longrightarrow> snd (drain it h) ! g = h ! g"
proof (induction it arbitrary: h)
  case (Lst xs)
  show ?case by simp
next
  case (Gen g' a b)
  obtain xs h1 where da: "drain a h = (xs, h1)" by (cases "drain a h")
  obtain ys h2 where db: "drain b h1 = (ys, h2)" by (cases "drain b h1")
  from Gen.prems have ne: "g' \<noteq> g" and ga: "g \<notin> set (gens a)" and gb: "g \<notin> set (gens b)"
    by auto
  have "h1 ! g = h ! g" using Gen.IH(1) [OF ga, of h] da by simp
  moreover have "h2 ! g = h1 ! g" using Gen.IH(2) [OF gb, of h1] db by simp
  ultimately show ?case using ne by (simp add: da db)
qed

text \<open>What a sequence yields depends only on the generators it reaches.\<close>

lemma drain_agree:
  "agree S h h' \<Longrightarrow> set (gens it) \<subseteq> S \<Longrightarrow>
     fst (drain it h) = fst (drain it h') \<and> agree S (snd (drain it h)) (snd (drain it h'))"
proof (induction it arbitrary: h h')
  case (Lst xs)
  then show ?case by simp
next
  case (Gen g a b)
  obtain xs h1 where da: "drain a h = (xs, h1)" by (cases "drain a h")
  obtain ys h2 where db: "drain b h1 = (ys, h2)" by (cases "drain b h1")
  obtain xs' h1' where da': "drain a h' = (xs', h1')" by (cases "drain a h'")
  obtain ys' h2' where db': "drain b h1' = (ys', h2')" by (cases "drain b h1'")
  from Gen.prems have gS: "g \<in> S" and aS: "set (gens a) \<subseteq> S" and bS: "set (gens b) \<subseteq> S"
    by auto
  have ex: "exhausted h g = exhausted h' g"
    using Gen.prems(1) gS by (simp add: agree_def exhausted_def)
  have A: "xs = xs' \<and> agree S h1 h1'" using Gen.IH(1) [OF Gen.prems(1) aS] da da' by simp
  then have B: "ys = ys' \<and> agree S h2 h2'" using Gen.IH(2) [OF _ bS, of h1 h1'] db db' by simp
  have C: "agree S (h2[g := True]) (h2'[g := True])"
  proof (cases "g < length h2")
    case True
    with B show ?thesis by (simp add: agree_def nth_list_update)
  next
    case False
    with B have "h2[g := True] = h2" "h2'[g := True] = h2'"
      by (simp_all add: agree_def list_update_beyond)
    with B show ?thesis by simp
  qed
  show ?case using ex A B C Gen.prems(1) by (simp add: da db da' db')
qed

subsection \<open>The merge law\<close>

text \<open>
  What \<open>merge\<close> does on any two states whose result sequences live in the heap: the
  merged state has B's cursor, and iterating its results yields what iterating A's
  results yields, followed by what iterating B's results yields once A's have been
  drained. Only when the two sequences share no generator object is that A's results
  followed by B's results, each as it stood before the merge.
\<close>

lemma merge_drains_in_order:
  "allocated h (results A) \<Longrightarrow> allocated h (results B) \<Longrightarrow>
   (case merge A B h of (M, h') \<Rightarrow>
      leftover M = leftover B \<and>
      fst (drain (results M) h') =
        (case drain (results A) h of (xs, h1) \<Rightarrow> xs @ fst (drain (results B) h1)) \<and>
      (set (gens (results A)) \<inter> set (gens (results B)) = {} \<longrightarrow>
         fst (drain (results M) h') = fst (drain (results A) h) @ fst (drain (results B) h)))"
proof -
  assume a: "allocated h (results A)" and b: "allocated h (results B)"
  obtain xs h1 where da: "drain (results A) h = (xs, h1)" by (cases "drain (results A) h")
  obtain ys h2 where db: "drain (results B) h1 = (ys, h2)" by (cases "drain (results B) h1")
  have l1: "length h1 = length h" using drain_length [of "results A" h] da by simp
  have b1: "allocated h1 (results B)" using b l1 by (simp add: allocated_def)
  have ea: "drain (results A) (h @ [False]) = (xs, h1 @ [False])"
    using drain_append [OF a, of "[False]"] da by simp
  have eb: "drain (results B) (h1 @ [False]) = (ys, h2 @ [False])"
    using drain_append [OF b1, of "[False]"] db by simp
  have nx: "\<not> exhausted (h @ [False]) (length h)" by (simp add: exhausted_def)
  have seq: "fst (drain (Gen (length h) (results A) (results B)) (h @ [False])) = xs @ ys"
    by (simp add: nx ea eb)
  have indep: "fst (drain (results B) h1) = fst (drain (results B) h)"
    if d: "set (gens (results A)) \<inter> set (gens (results B)) = {}"
  proof -
    have "agree (set (gens (results B))) h1 h"
      unfolding agree_def
    proof (intro conjI ballI)
      show "length h1 = length h" by (rule l1)
    next
      fix g assume "g \<in> set (gens (results B))"
      with d have "g \<notin> set (gens (results A))" by auto
      from drain_frame [OF this, of h] da show "h1 ! g = h ! g" by simp
    qed
    from drain_agree [OF this order_refl] show ?thesis by simp
  qed
  show ?thesis
    using seq indep by (simp add: merge_def da db)
qed

text \<open>
  C2. The merge law: for all engine states A and B, \<open>A.merge(B)\<close> has exactly B's
  cursor, and its result sequence is exactly A's results followed by B's results. The
  cursor part holds. The results part fails on states that share a generator object,
  which is what the operators build: \<open>z1\<close> is the state after \<open>takewhile(fan_odd)\<close> on
  the tokens 1, 3, 2 and yields six values; \<open>z2\<close> is \<open>z1.takewhile(fan_even)\<close> and
  yields nine. \<open>z1.merge(z2)\<close> yields the nine values of \<open>z2\<close> only, not the six
  followed by the nine; \<open>z1.merge(z1)\<close> yields the six values once. The generator of
  \<open>z1\<close> is drained by the first \<^verbatim>\<open>yield from\<close> and has nothing left for the second.
\<close>

theorem merge_shares_generators:
  "(case takewhile (Zipper_new (input [1, 3, 2])) fan_odd False default_ex_types [] of
      Inl e \<Rightarrow> False
    | Inr (z1, h1) \<Rightarrow>
        (case takewhile z1 fan_even False default_ex_types h1 of
           Inl e \<Rightarrow> False
         | Inr (z2, h2) \<Rightarrow>
             allocated h2 (results z1) \<and> allocated h2 (results z2) \<and>
             fst (drain (results z1) h2) = [1, 2, 3, 3, 4, 5] \<and>
             fst (drain (results z2) h2) = [1, 2, 3, 3, 4, 5, 2, 3, 4] \<and>
             (case merge z1 z2 h2 of
                (M, h3) \<Rightarrow>
                  leftover M = leftover z2 \<and>
                  fst (drain (results M) h3) = [1, 2, 3, 3, 4, 5, 2, 3, 4] \<and>
                  fst (drain (results M) h3)
                    \<noteq> fst (drain (results z1) h2) @ fst (drain (results z2) h2)) \<and>
             (case merge z1 z1 h2 of
                (M, h3) \<Rightarrow>
                  leftover M = leftover z1 \<and>
                  fst (drain (results M) h3) = [1, 2, 3, 3, 4, 5])))"
  by code_simp

subsection \<open>Shared generators\<close>

text \<open>
  C3. Non-mutation: an operator leaves the state it is applied to usable, with its
  original cursor and its original results, also after the results of the returned
  state have been consumed. The cursor part holds; the results part does not, as the
  run below on the module's own test input shows. \<open>z1\<close> is the state after
  \<open>takewhile(fan_odd)\<close> on the tokens 1, 3, 7; its results would yield the nine values.
  \<open>takewhile(fan_even)\<close> applied to \<open>z1\<close> gives \<open>z2\<close>, and \<open>z1\<close> still yields the nine
  values. Once the results of \<open>z2\<close> have been consumed, \<open>z1\<close> yields nothing: the
  generator of \<open>z2\<close> has drawn its items from the generator of \<open>z1\<close>. Asking
  \<open>z1.successful()\<close> has the same effect on \<open>z1\<close> itself. The cursor of \<open>z1\<close> stays
  where it was throughout.
\<close>

theorem takewhile_exhausts_original_results:
  "(case takewhile (Zipper_new (input [1, 3, 7])) fan_odd False default_ex_types [] of
      Inl e \<Rightarrow> False
    | Inr (z1, h1) \<Rightarrow>
        leftover z1 = \<lparr>data = [1, 3, 7], state = 3\<rparr> \<and>
        fst (drain (results z1) h1) = [1, 2, 3, 3, 4, 5, 7, 8, 9] \<and>
        (case successful z1 h1 of
           (ok, h') \<Rightarrow> ok \<and> fst (drain (results z1) h') = []) \<and>
        (case takewhile z1 fan_even False default_ex_types h1 of
           Inl e \<Rightarrow> False
         | Inr (z2, h2) \<Rightarrow>
             fst (drain (results z1) h2) = [1, 2, 3, 3, 4, 5, 7, 8, 9] \<and>
             (case drain (results z2) h2 of
                (ys, h3) \<Rightarrow>
                  ys = [1, 2, 3, 3, 4, 5, 7, 8, 9] \<and>
                  leftover z1 = \<lparr>data = [1, 3, 7], state = 3\<rparr> \<and>
                  fst (drain (results z1) h3) = [])))"
  by code_simp

subsection \<open>chomp_n at the end of the input\<close>

text \<open>
  C10, as stated: on a state with fewer than \<open>n\<close> tokens left, \<open>chomp_n(n, rule)\<close> with
  the default \<open>ex_types\<close> never returns the state unchanged. It does when the rule
  raises \<open>Uncatchable\<close>, the one class the default \<open>ex_types\<close> holds: one token is
  left, two are asked for, and the state comes back as it was.
\<close>

theorem chomp_n_truncated_counterexample:
  "chomp_n \<lparr>leftover = input [0], results = Lst []\<rparr> 2 raise_uncatchable default_ex_types []
     = Inr (\<lparr>leftover = input [0], results = Lst []\<rparr>, [])"
  by (simp add: chomp_n_def raise_uncatchable_def caught_def default_ex_types_def)

text \<open>
  C10, amended. On a state whose cursor, at a position \<open>\<ge> 0\<close>, has fewer than \<open>n\<close>
  tokens left, \<open>chomp_n(n, rule)\<close> with the default \<open>ex_types\<close> applies the rule to the
  block of all remaining tokens, not padded. If the rule returns normally, \<open>chomp_n\<close>
  raises \<open>EndOfInputError\<close>; if the rule raises an error other than \<open>Uncatchable\<close>, that
  error goes to the caller; the state is returned unchanged only if the rule itself
  raises \<open>Uncatchable\<close>.
\<close>

theorem chomp_n_truncated:
  assumes "0 \<le> state (leftover z)"
      and "int (length (data (leftover z))) - state (leftover z) < n"
  shows "chomp_n z n rule default_ex_types h =
     (case rule (drop (nat (state (leftover z))) (data (leftover z))) of
        Inr rs \<Rightarrow> Inl EndOfInputError
      | Inl e \<Rightarrow> if e = Uncatchable then Inr (z, h) else Inl e)"
proof -
  have sl: "py_slice (data (leftover z)) (state (leftover z)) (state (leftover z) + n)
      = drop (nat (state (leftover z))) (data (leftover z))"
    using assms by (auto simp: py_slice_def py_bound_def Let_def min_def)
  have adv: "advance (leftover z) n = Inl EndOfInputError"
    using assms by (simp add: advance_def Let_def)
  have cg: "\<And>e. caught default_ex_types e = (e = Uncatchable)"
    by (case_tac e) (simp_all add: caught_def default_ex_types_def)
  show ?thesis
    by (simp add: chomp_n_def Let_def sl adv cg split: sum.splits)
qed

theorem chomp_n_truncated_witness:
  "0 \<le> state (leftover (\<lparr>leftover = input [0], results = Lst []\<rparr> :: (int, int) Zipper))
   \<and> int (length (data (leftover (\<lparr>leftover = input [0], results = Lst []\<rparr> :: (int, int) Zipper))))
       - state (leftover (\<lparr>leftover = input [0], results = Lst []\<rparr> :: (int, int) Zipper)) < 2
   \<and> chomp_n (\<lparr>leftover = input [0], results = Lst []\<rparr> :: (int, int) Zipper) 2 Inr
       default_ex_types [] = Inl EndOfInputError"
  using chomp_n_truncated [of "\<lparr>leftover = input [0], results = Lst []\<rparr> :: (int, int) Zipper" 2 Inr "[]"]
  by (simp add: input_def)

section \<open>Grammar atoms\<close>

text \<open>
  C1. For every grammar atom and every token, if the atom's stop predicate is true on
  the token, the rule that \<open>arrow_parse\<close> builds returns the empty sequence for it: no
  \<open>ParseStep\<close> and no error, whatever the atom's pattern does on the token.
\<close>

theorem stop_predicate_precedence:
  "stops_on a s \<Longrightarrow> arrow_parse E a s = Inr []"
  by (simp add: arrow_parse_def)

theorem stop_predicate_precedence_witness:
  "stops_on (st_name_component spec_env [OrRe []]) ''AVE''
   \<and> rmatch spec_env ''AVE'' (compiled_pattern (st_name_component spec_env [OrRe []])) = Some ''AVE''
   \<and> arrow_parse spec_env (st_name_component spec_env [OrRe []]) ''AVE'' = Inr []"
proof -
  have h: "stops_on (st_name_component spec_env [OrRe []]) ''AVE''"
    by code_simp
  have m: "rmatch spec_env ''AVE'' (compiled_pattern (st_name_component spec_env [OrRe []]))
             = Some ''AVE''"
    by code_simp
  from stop_predicate_precedence [OF h] h m show ?thesis by simp
qed

section \<open>Normalisation\<close>

lemma upper_APT3: "upper ''APT APT APT'' = ''APT APT APT''"
  by code_simp

lemma upper_APT2: "upper ''APT APT'' = ''APT APT''"
  by code_simp

lemma replace_comma_APT3: "replace_str '','' '' '' ''APT APT APT'' = ''APT APT APT''"
  by code_simp

lemma replace_hash_APT3: "replace_str ''#'' ''APT '' ''APT APT APT'' = ''APT APT APT''"
  by code_simp

lemma replace_APT_APT3: "replace_str ''APT APT'' ''APT'' ''APT APT APT'' = ''APT APT''"
  by code_simp

lemma replace_comma_APT2: "replace_str '','' '' '' ''APT APT'' = ''APT APT''"
  by code_simp

lemma replace_hash_APT2: "replace_str ''#'' ''APT '' ''APT APT'' = ''APT APT''"
  by code_simp

lemma replace_APT_APT2: "replace_str ''APT APT'' ''APT'' ''APT APT'' = ''APT''"
  by code_simp

text \<open>
  C9. Idempotence of \<open>__tokenize__\<close> on every string, also where unit markers
  repeat. On the string of three unit markers the code is not idempotent: the single
  left-to-right pass of \<^verbatim>\<open>s.replace("APT APT", "APT")\<close> leaves two markers, and a
  second normalisation leaves one. This holds for every \<open>remove_punc\<close>,
  \<open>normalize_whitespace\<close> and city substitution that leave the strings of upper-case
  words involved as they are.
\<close>

theorem tokenize_not_idempotent:
  assumes "remove_punc E ''APT APT APT'' = ''APT APT APT''"
      and "normalize_whitespace E ''APT APT APT'' = ''APT APT APT''"
      and "remove_punc E ''APT APT'' = ''APT APT''"
      and "normalize_whitespace E ''APT APT'' = ''APT APT''"
      and "\<forall>r. kcr = Some r \<longrightarrow>
             re_sub E r city_repl ''APT APT'' = ''APT APT'' \<and> re_sub E r city_repl ''APT'' = ''APT''"
  shows "tokenize E kcr ''APT APT APT'' = ''APT APT''
       \<and> tokenize E kcr (tokenize E kcr ''APT APT APT'') = ''APT''
       \<and> tokenize E kcr (tokenize E kcr ''APT APT APT'') \<noteq> tokenize E kcr ''APT APT APT''"
proof -
  have a: "tokenize E kcr ''APT APT APT'' = ''APT APT''"
    using assms
    by (cases kcr)
       (simp_all add: tokenize_def replace_comma_APT3 replace_hash_APT3 replace_APT_APT3 upper_APT3)
  have b: "tokenize E kcr ''APT APT'' = ''APT''"
    using assms
    by (cases kcr)
       (simp_all add: tokenize_def replace_comma_APT2 replace_hash_APT2 replace_APT_APT2 upper_APT2)
  show ?thesis by (simp add: a b)
qed

theorem tokenize_not_idempotent_witness:
  "remove_punc spec_env ''APT APT APT'' = ''APT APT APT''
   \<and> normalize_whitespace spec_env ''APT APT APT'' = ''APT APT APT''
   \<and> remove_punc spec_env ''APT APT'' = ''APT APT''
   \<and> normalize_whitespace spec_env ''APT APT'' = ''APT APT''
   \<and> re_sub spec_env (OrRe []) city_repl ''APT APT'' = ''APT APT''
   \<and> re_sub spec_env (OrRe []) city_repl ''APT'' = ''APT''
   \<and> known_cities_R (Parser_init spec_env []) = Some (OrRe [])
   \<and> tokenize spec_env (Some (OrRe [])) ''APT APT APT'' = ''APT APT''
   \<and> tokenize spec_env (Some (OrRe [])) (tokenize spec_env (Some (OrRe [])) ''APT APT APT'')
       = ''APT''"
proof -
  have h1: "remove_punc spec_env ''APT APT APT'' = ''APT APT APT''" by code_simp
  have h2: "normalize_whitespace spec_env ''APT APT APT'' = ''APT APT APT''" by code_simp
  have h3: "remove_punc spec_env ''APT APT'' = ''APT APT''" by code_simp
  have h4: "normalize_whitespace spec_env ''APT APT'' = ''APT APT''" by code_simp
  have h5: "re_sub spec_env (OrRe []) city_repl ''APT APT'' = ''APT APT''"
    by (simp add: spec_env_def spec_re_sub_def)
  have h6: "re_sub spec_env (OrRe []) city_repl ''APT'' = ''APT''"
    by (simp add: spec_env_def spec_re_sub_def)
  have h7: "known_cities_R (Parser_init spec_env []) = Some (OrRe [])"
    by (simp add: Parser_init_def Parser_core_def Let_def)
  have h56: "\<forall>r. Some (OrRe []) = Some r \<longrightarrow>
             re_sub spec_env r city_repl ''APT APT'' = ''APT APT''
             \<and> re_sub spec_env r city_repl ''APT'' = ''APT''"
    using h5 h6 by simp
  from tokenize_not_idempotent [OF h1 h2 h3 h4 h56] h1 h2 h3 h4 h5 h6 h7
  show ?thesis by blast
qed

section \<open>The parser\<close>

lemma tokenize_ambiguous:
  assumes "remove_punc E ''123 STRAIGHT AUSTIN TX'' = ''123 STRAIGHT AUSTIN TX''"
      and "normalize_whitespace E ''123 STRAIGHT AUSTIN TX'' = ''123 STRAIGHT AUSTIN TX''"
      and "re_sub E (OrRe []) city_repl ''123 STRAIGHT AUSTIN TX'' = ''123 STRAIGHT AUSTIN TX''"
  shows "tokenize E (Some (OrRe [])) ''123 STRAIGHT AUSTIN TX'' = ''123 STRAIGHT AUSTIN TX''"
proof -
  have a: "replace_str '','' '' '' ''123 STRAIGHT AUSTIN TX'' = ''123 STRAIGHT AUSTIN TX''" by code_simp
  have b: "upper ''123 STRAIGHT AUSTIN TX'' = ''123 STRAIGHT AUSTIN TX''" by code_simp
  have c: "replace_str ''#'' ''APT '' ''123 STRAIGHT AUSTIN TX'' = ''123 STRAIGHT AUSTIN TX''" by code_simp
  have d: "replace_str ''APT APT'' ''APT'' ''123 STRAIGHT AUSTIN TX'' = ''123 STRAIGHT AUSTIN TX''" by code_simp
  show ?thesis using assms by (simp add: tokenize_def a b c d)
qed

lemma split_ambiguous: "split_ws ''123 STRAIGHT AUSTIN TX'' = [''123'', ''STRAIGHT'', ''AUSTIN'', ''TX'']"
  by code_simp

lemma st_name_loop_ambiguous:
  assumes nostop: "\<forall>t\<in>set [''STRAIGHT'', ''AUSTIN'', ''TX''].
             rmatch E t (st_suffix_R E) = None \<and> rmatch E t st_NESW_R = None
             \<and> rmatch E t (unit_R E) = None \<and> rmatch E t (OrRe []) = None"
      and word: "\<forall>t\<in>set [''STRAIGHT'', ''AUSTIN'', ''TX'']. rmatch E t (Re (bs # ''w+'')) = Some t"
  shows "takewhile_loop (st_name (Parser_init E [])) ex_types_p
           \<lparr>data = [''123'', ''STRAIGHT'', ''AUSTIN'', ''TX''], state = 1\<rparr> 0 []
         = Inr (3, [ParseStep ''st_name'' ''STRAIGHT'', ParseStep ''st_name'' ''AUSTIN'',
                    ParseStep ''st_name'' ''TX''])"
  using assms
  by (simp add: Parser_init_def Parser_core_def Let_def make_st_name_def st_name_component_def
        arrow_parse_def make_stops_on_def truthy_def takewhile_loop.simps item_def py_index_def
        rest_def)


lemma call_unfold:
  "call E P s0 checked h =
     (case (case blank_parse P of
              None \<Rightarrow> None
            | Some b \<Rightarrow> (case call E b s0 checked h of Inl e \<Rightarrow> None | Inr a \<Rightarrow> Some a)) of
        Some a \<Rightarrow> Inr a
      | None \<Rightarrow>
          (case pipeline E P s0 h of
             Inl e \<Rightarrow> Inl e
           | Inr (z, h') \<Rightarrow> collect_results E s0 (fst (drain (results z) h')) checked))"
proof (cases P)
  case (Parser bp kc kcr cty stn)
  show ?thesis unfolding Parser by simp
qed

text \<open>
  C8. Parsing \<^verbatim>\<open>"123 STRAIGHT AUSTIN TX"\<close> with a parser built with no known cities
  fails, checked or not: the call raises \<open>EndOfAddressError\<close>, an instance of
  \<open>ParseError\<close>, and returns no address. The street-name step takes \<open>STRAIGHT\<close>,
  \<open>AUSTIN\<close> and \<open>TX\<close>, and the directional step after the suffix step then reads past
  the end of the tokens. This holds for every \<open>__regex__\<close> module under which the
  address is already normalised, \<open>123\<close> is a house number, and the three words are
  words that are neither a suffix, a directional, a unit type nor a known city.
\<close>

theorem ambiguous_input_fails:
  assumes rp: "remove_punc E ''123 STRAIGHT AUSTIN TX'' = ''123 STRAIGHT AUSTIN TX''"
      and nw: "normalize_whitespace E ''123 STRAIGHT AUSTIN TX'' = ''123 STRAIGHT AUSTIN TX''"
      and rs: "re_sub E (OrRe []) city_repl ''123 STRAIGHT AUSTIN TX'' = ''123 STRAIGHT AUSTIN TX''"
      and hn: "rmatch E ''123'' (Re (''['' @ bs # ''d/]+'')) = Some ''123''"
      and nostop: "\<forall>t\<in>set [''STRAIGHT'', ''AUSTIN'', ''TX''].
             rmatch E t (st_suffix_R E) = None \<and> rmatch E t st_NESW_R = None
             \<and> rmatch E t (unit_R E) = None \<and> rmatch E t (OrRe []) = None"
      and word: "\<forall>t\<in>set [''STRAIGHT'', ''AUSTIN'', ''TX'']. rmatch E t (Re (bs # ''w+'')) = Some t"
  shows "call E (Parser_init E []) ''123 STRAIGHT AUSTIN TX'' checked h
           = Inl (EndOfAddressError ''123 STRAIGHT AUSTIN TX'' ''unknown: end of input'')
       \<and> isinstance (EndOfAddressError ''123 STRAIGHT AUSTIN TX'' ''unknown: end of input'')
            C_ParseError
       \<and> takewhile_loop (st_name (Parser_init E [])) ex_types_p
           \<lparr>data = [''123'', ''STRAIGHT'', ''AUSTIN'', ''TX''], state = 1\<rparr> 0 []
         = Inr (3, [ParseStep ''st_name'' ''STRAIGHT'', ParseStep ''st_name'' ''AUSTIN'',
                    ParseStep ''st_name'' ''TX''])"
proof -
  let ?P = "Parser_init E []"
  let ?toks = "[''123'', ''STRAIGHT'', ''AUSTIN'', ''TX'']"
  have P: "?P = Parser None [] (Some (OrRe [])) (city ?P) (st_name ?P)"
    by (simp add: Parser_init_def Parser_core_def Let_def)
  have kcr: "known_cities_R ?P = Some (OrRe [])"
    by (simp add: Parser_init_def Parser_core_def Let_def)
  have tok: "tokenize E (known_cities_R ?P) ''123 STRAIGHT AUSTIN TX'' = ''123 STRAIGHT AUSTIN TX''"
    using tokenize_ambiguous [OF rp nw rs] kcr by simp
  have loop: "takewhile_loop (st_name ?P) ex_types_p \<lparr>data = ?toks, state = 1\<rparr> 0 []
         = Inr (3, [ParseStep ''st_name'' ''STRAIGHT'', ParseStep ''st_name'' ''AUSTIN'',
                    ParseStep ''st_name'' ''TX''])"
    by (rule st_name_loop_ambiguous [OF nostop word])
  have s1: "Apply_consume_with (HOUSE_NUMBER E) ex_types_p (Zipper_new \<lparr>data = ?toks, state = 0\<rparr>) h
      = Inr (\<lparr>leftover = \<lparr>data = ?toks, state = 1\<rparr>,
              results = Gen (length h) (Lst []) (Lst [ParseStep ''house_number'' ''123''])\<rparr>,
             h @ [False])"
    using hn
    by (simp add: Apply_consume_with_def consume_with_def takewhile_def takewhile_single_def
          Zipper_new_def item_def py_index_def HOUSE_NUMBER_def arrow_parse_def component_def
          advance_def merge_def)
  have s2: "\<And>z h. leftover z = \<lparr>data = ?toks, state = 1\<rparr> \<Longrightarrow>
      Apply_consume_with (ST_NESW E) ex_types_p z h
      = Inr (\<lparr>leftover = \<lparr>data = ?toks, state = 1\<rparr>,
              results = Gen (length h) (results z) (Lst [])\<rparr>, h @ [False])"
    using nostop
    by (simp add: Apply_consume_with_def consume_with_def takewhile_def takewhile_single_def
          item_def py_index_def ST_NESW_def arrow_parse_def component_def
          advance_def merge_def caught_def ex_types_p_def)
  have s3: "\<And>z h. leftover z = \<lparr>data = ?toks, state = 1\<rparr> \<Longrightarrow>
      Apply_takewhile (st_name ?P) False ex_types_p z h
      = Inr (\<lparr>leftover = \<lparr>data = ?toks, state = 4\<rparr>,
              results = Gen (length h) (results z)
                 (Lst [ParseStep ''st_name'' ''STRAIGHT'', ParseStep ''st_name'' ''AUSTIN'',
                       ParseStep ''st_name'' ''TX''])\<rparr>, h @ [False])"
    using loop by (simp add: Apply_takewhile_def takewhile_def advance_def merge_def)
  have s4: "\<And>z h. leftover z = \<lparr>data = ?toks, state = 4\<rparr> \<Longrightarrow>
      Apply_takewhile (ST_SUFFIX E) False ex_types_p z h
      = Inr (\<lparr>leftover = \<lparr>data = ?toks, state = 4\<rparr>,
              results = Gen (length h) (results z) (Lst [])\<rparr>, h @ [False])"
    by (simp add: Apply_takewhile_def takewhile_def takewhile_loop.simps item_def
          advance_def merge_def)
  have s5: "\<And>z h. leftover z = \<lparr>data = ?toks, state = 4\<rparr> \<Longrightarrow>
      Apply_consume_with (ST_NESW E) ex_types_p z h = Inl EndOfInputError"
    by (simp add: Apply_consume_with_def consume_with_def takewhile_def takewhile_single_def
          item_def caught_def ex_types_p_def)
  have pipe: "pipeline E ?P ''123 STRAIGHT AUSTIN TX'' h
      = Inl (EndOfAddressError ''123 STRAIGHT AUSTIN TX'' ''unknown: end of input'')"
    by (simp add: pipeline_def tok split_ambiguous hn_nesw_def Let_def s1 s2 s3 s4 s5)
  have "call E ?P ''123 STRAIGHT AUSTIN TX'' checked h
      = Inl (EndOfAddressError ''123 STRAIGHT AUSTIN TX'' ''unknown: end of input'')"
  proof -
    have bp: "blank_parse ?P = None"
      by (simp add: Parser_init_def Parser_core_def Let_def)
    show ?thesis by (subst call_unfold) (simp add: bp pipe)
  qed
  then show ?thesis using loop by simp
qed

theorem ambiguous_input_fails_witness:
  "remove_punc spec_env ''123 STRAIGHT AUSTIN TX'' = ''123 STRAIGHT AUSTIN TX''
   \<and> normalize_whitespace spec_env ''123 STRAIGHT AUSTIN TX'' = ''123 STRAIGHT AUSTIN TX''
   \<and> re_sub spec_env (OrRe []) city_repl ''123 STRAIGHT AUSTIN TX'' = ''123 STRAIGHT AUSTIN TX''
   \<and> rmatch spec_env ''123'' (Re (''['' @ bs # ''d/]+'')) = Some ''123''
   \<and> map (\<lambda>t. rmatch spec_env t (st_suffix_R spec_env)) [''STRAIGHT'', ''AUSTIN'', ''TX'']
        = [None, None, None]
   \<and> map (\<lambda>t. rmatch spec_env t st_NESW_R) [''STRAIGHT'', ''AUSTIN'', ''TX''] = [None, None, None]
   \<and> map (\<lambda>t. rmatch spec_env t (unit_R spec_env)) [''STRAIGHT'', ''AUSTIN'', ''TX'']
        = [None, None, None]
   \<and> map (\<lambda>t. rmatch spec_env t (OrRe [])) [''STRAIGHT'', ''AUSTIN'', ''TX''] = [None, None, None]
   \<and> map (\<lambda>t. rmatch spec_env t (Re (bs # ''w+''))) [''STRAIGHT'', ''AUSTIN'', ''TX'']
        = [Some ''STRAIGHT'', Some ''AUSTIN'', Some ''TX'']
   \<and> call spec_env (Parser_init spec_env []) ''123 STRAIGHT AUSTIN TX'' True []
        = Inl (EndOfAddressError ''123 STRAIGHT AUSTIN TX'' ''unknown: end of input'')"
proof -
  have rp: "remove_punc spec_env ''123 STRAIGHT AUSTIN TX'' = ''123 STRAIGHT AUSTIN TX''"
    by code_simp
  have nw: "normalize_whitespace spec_env ''123 STRAIGHT AUSTIN TX'' = ''123 STRAIGHT AUSTIN TX''"
    by code_simp
  have rs: "re_sub spec_env (OrRe []) city_repl ''123 STRAIGHT AUSTIN TX''
              = ''123 STRAIGHT AUSTIN TX''"
    by (simp add: spec_env_def spec_re_sub_def)
  have hn: "rmatch spec_env ''123'' (Re (''['' @ bs # ''d/]+'')) = Some ''123''"
    by code_simp
  have m1: "map (\<lambda>t. rmatch spec_env t (st_suffix_R spec_env)) [''STRAIGHT'', ''AUSTIN'', ''TX'']
        = [None, None, None]" by code_simp
  have m2: "map (\<lambda>t. rmatch spec_env t st_NESW_R) [''STRAIGHT'', ''AUSTIN'', ''TX'']
        = [None, None, None]" by code_simp
  have m3: "map (\<lambda>t. rmatch spec_env t (unit_R spec_env)) [''STRAIGHT'', ''AUSTIN'', ''TX'']
        = [None, None, None]" by code_simp
  have m4: "map (\<lambda>t. rmatch spec_env t (OrRe [])) [''STRAIGHT'', ''AUSTIN'', ''TX'']
        = [None, None, None]" by code_simp
  have m5: "map (\<lambda>t. rmatch spec_env t (Re (bs # ''w+''))) [''STRAIGHT'', ''AUSTIN'', ''TX'']
        = [Some ''STRAIGHT'', Some ''AUSTIN'', Some ''TX'']" by code_simp
  have nostop: "\<forall>t\<in>set [''STRAIGHT'', ''AUSTIN'', ''TX''].
             rmatch spec_env t (st_suffix_R spec_env) = None \<and> rmatch spec_env t st_NESW_R = None
             \<and> rmatch spec_env t (unit_R spec_env) = None \<and> rmatch spec_env t (OrRe []) = None"
    using m1 m2 m3 m4 by simp
  have word: "\<forall>t\<in>set [''STRAIGHT'', ''AUSTIN'', ''TX''].
             rmatch spec_env t (Re (bs # ''w+'')) = Some t"
    using m5 by simp
  from ambiguous_input_fails [OF rp nw rs hn nostop word, of True "[]"] rp nw rs hn m1 m2 m3 m4 m5
  show ?thesis by blast
qed

subsection \<open>Required fields\<close>

lemma parsers_of_self: "P \<in> set (parsers_of P)"
  by (cases P) simp

lemma parsers_of_blank: "blank_parse P = Some b \<Longrightarrow> set (parsers_of b) \<subseteq> set (parsers_of P)"
  by (cases P) auto

lemma fill_buckets_keys: "fill_buckets d rs = Inr d' \<Longrightarrow> map fst d' = map fst d"
proof (induction rs arbitrary: d)
  case Nil
  then show ?case by simp
next
  case (Cons p_r rs)
  show ?case
  proof (cases "ParseStep.label p_r = ''junk''")
    case True
    with Cons show ?thesis by simp
  next
    case False
    with Cons.prems obtain vs where vs: "map_of d (ParseStep.label p_r) = Some vs"
      and rec: "fill_buckets (AList.update (ParseStep.label p_r) (vs @ [val p_r]) d) rs = Inr d'"
      by (auto split: option.splits)
    from vs have "ParseStep.label p_r \<in> fst ` set d" by (rule map_of_SomeD [THEN imageI, of _ _ _ fst, simplified])
    then have "map fst (AList.update (ParseStep.label p_r) (vs @ [val p_r]) d) = map fst d"
      by (simp add: update_keys)
    with Cons.IH [OF rec] show ?thesis by simp
  qed
qed

lemma check_required_None:
  "check_required s d reqs = None \<Longrightarrow> \<forall>r\<in>set reqs. \<exists>vs. map_of d r = Some vs \<and> vs \<noteq> []"
  by (induction reqs) (auto split: option.splits if_splits)

lemma check_required_Some:
  "\<forall>r\<in>set reqs. map_of d r \<noteq> None \<Longrightarrow> \<exists>f\<in>set reqs. map_of d f = Some [] \<Longrightarrow>
   \<exists>f\<in>set reqs. map_of d f = Some []
      \<and> check_required s d reqs = Some (ParseError s (''Could not identify '' @ f))"
proof (induction reqs)
  case Nil
  then show ?case by simp
next
  case (Cons r reqs)
  from Cons.prems(1) obtain vs where vs: "map_of d r = Some vs" by auto
  show ?case
  proof (cases "vs = []")
    case True
    with vs show ?thesis by simp
  next
    case False
    with vs Cons.prems have "\<forall>r\<in>set reqs. map_of d r \<noteq> None" "\<exists>f\<in>set reqs. map_of d f = Some []"
      by auto
    from Cons.IH [OF this] vs False show ?thesis by auto
  qed
qed

lemma call_checked_Inr:
  "call E P s True h = Inr a \<Longrightarrow>
     \<exists>P' z h' d. P' \<in> set (parsers_of P) \<and> pipeline E P' s h = Inr (z, h')
        \<and> fill_buckets empty_buckets (fst (drain (results z) h')) = Inr d
        \<and> (\<forall>f\<in>set (required E). \<exists>vs. map_of d f = Some vs \<and> vs \<noteq> [])
        \<and> build_address E s d = Inr a"
proof (induction P)
  case (Parser bp kc kcr cty stn)
  let ?P = "Parser bp kc kcr cty stn"
  show ?case
  proof (cases "\<exists>b a'. bp = Some b \<and> call E b s True h = Inr a'")
    case True
    then obtain b a' where b: "bp = Some b" and cb: "call E b s True h = Inr a'" by blast
    with Parser.prems have "a' = a" by simp
    with cb have "call E b s True h = Inr a" by simp
    from Parser.IH [of b, OF _ this] b
    obtain P' z h' d where "P' \<in> set (parsers_of b)" "pipeline E P' s h = Inr (z, h')"
        "fill_buckets empty_buckets (fst (drain (results z) h')) = Inr d"
        "\<forall>f\<in>set (required E). \<exists>vs. map_of d f = Some vs \<and> vs \<noteq> []"
        "build_address E s d = Inr a"
      by auto
    with b show ?thesis by auto
  next
    case False
    then have nb: "(case bp of None \<Rightarrow> None
            | Some b \<Rightarrow> (case call E b s True h of Inl e \<Rightarrow> None | Inr a \<Rightarrow> Some a)) = None"
      by (auto split: option.splits sum.splits)
    with Parser.prems obtain z h' where pz: "pipeline E ?P s h = Inr (z, h')"
      and cr: "collect_results E s (fst (drain (results z) h')) True = Inr a"
      by (auto split: sum.splits)
    from cr obtain d where d: "fill_buckets empty_buckets (fst (drain (results z) h')) = Inr d"
      and ck: "check_required s d (required E) = None" and ba: "build_address E s d = Inr a"
      by (auto simp: collect_results_def split: sum.splits option.splits)
    from check_required_None [OF ck] pz d ba show ?thesis
      by (intro exI [of _ ?P] exI [of _ z] exI [of _ h'] exI [of _ d]) simp
  qed
qed

text \<open>
  C4. \<open>required\<close> holds the four fields \<open>house_number\<close>, \<open>st_name\<close>, \<open>city\<close>,
  \<open>us_state\<close>. When the call with \<open>checked=True\<close> returns an address, it was built
  from field buckets, collected from the pipeline of the parser or of its blank
  parser, in which each of the four fields has at least one value. When the blank
  parser, if there is one, has failed, the pipeline has run and the buckets are
  collected, and one of the four is empty, the call fails with the \<open>ParseError\<close>
  \<^verbatim>\<open>"Could not identify "\<close> followed by the name of a required field whose bucket is
  empty. With \<open>checked=False\<close> the same call goes on to build the address from the
  buckets, whatever they hold.
\<close>

theorem required_field_completeness:
  assumes req: "set (required E) = set HARD_COMPONENTS"
  shows "(call E P s True h = Inr a \<longrightarrow>
            (\<exists>P' z h' d. P' \<in> set (parsers_of P) \<and> pipeline E P' s h = Inr (z, h')
               \<and> fill_buckets empty_buckets (fst (drain (results z) h')) = Inr d
               \<and> (\<forall>f\<in>set HARD_COMPONENTS. \<exists>vs. map_of d f = Some vs \<and> vs \<noteq> [])
               \<and> build_address E s d = Inr a))
       \<and> ((\<forall>b. blank_parse P = Some b \<longrightarrow> (\<exists>e. call E b s True h = Inl e)) \<longrightarrow>
            pipeline E P s h = Inr (z, h') \<longrightarrow>
            fill_buckets empty_buckets (fst (drain (results z) h')) = Inr d \<longrightarrow>
            (\<exists>f\<in>set HARD_COMPONENTS. map_of d f = Some []) \<longrightarrow>
            (\<exists>f\<in>set HARD_COMPONENTS. map_of d f = Some []
               \<and> call E P s True h = Inl (ParseError s (''Could not identify '' @ f))))
       \<and> ((\<forall>b. blank_parse P = Some b \<longrightarrow> (\<exists>e. call E b s False h = Inl e)) \<longrightarrow>
            pipeline E P s h = Inr (z, h') \<longrightarrow>
            fill_buckets empty_buckets (fst (drain (results z) h')) = Inr d \<longrightarrow>
            call E P s False h = build_address E s d)"
proof (intro conjI impI)
  assume "call E P s True h = Inr a"
  from call_checked_Inr [OF this] req
  show "\<exists>P' z h' d. P' \<in> set (parsers_of P) \<and> pipeline E P' s h = Inr (z, h')
               \<and> fill_buckets empty_buckets (fst (drain (results z) h')) = Inr d
               \<and> (\<forall>f\<in>set HARD_COMPONENTS. \<exists>vs. map_of d f = Some vs \<and> vs \<noteq> [])
               \<and> build_address E s d = Inr a"
    by simp
next
  assume bf: "\<forall>b. blank_parse P = Some b \<longrightarrow> (\<exists>e. call E b s True h = Inl e)"
    and pz: "pipeline E P s h = Inr (z, h')"
    and fd: "fill_buckets empty_buckets (fst (drain (results z) h')) = Inr d"
    and em: "\<exists>f\<in>set HARD_COMPONENTS. map_of d f = Some []"
  from bf have nb: "(case blank_parse P of None \<Rightarrow> None
            | Some b \<Rightarrow> (case call E b s True h of Inl e \<Rightarrow> None | Inr a \<Rightarrow> Some a)) = None"
    by (auto split: option.splits sum.splits)
  have keys: "map fst d = map fst empty_buckets" by (rule fill_buckets_keys [OF fd])
  have "\<forall>r\<in>set (required E). map_of d r \<noteq> None"
  proof
    fix r assume "r \<in> set (required E)"
    with req have "r \<in> set HARD_COMPONENTS" by simp
    then have "r \<in> set (map fst empty_buckets)"
      by (auto simp: HARD_COMPONENTS_def empty_buckets_def)
    with keys have "r \<in> fst ` set d" by (metis list.set_map)
    then show "map_of d r \<noteq> None" by (simp add: map_of_eq_None_iff)
  qed
  moreover from em req have "\<exists>f\<in>set (required E). map_of d f = Some []" by simp
  ultimately obtain f where f: "f \<in> set (required E)" "map_of d f = Some []"
      "check_required s d (required E) = Some (ParseError s (''Could not identify '' @ f))"
    using check_required_Some [of "required E" d s] by blast
  have "call E P s True h = Inl (ParseError s (''Could not identify '' @ f))"
    by (subst call_unfold) (simp add: nb pz collect_results_def fd f)
  with f req
  show "\<exists>f\<in>set HARD_COMPONENTS. map_of d f = Some []
               \<and> call E P s True h = Inl (ParseError s (''Could not identify '' @ f))"
    by auto
next
  assume bf: "\<forall>b. blank_parse P = Some b \<longrightarrow> (\<exists>e. call E b s False h = Inl e)"
    and pz: "pipeline E P s h = Inr (z, h')"
    and fd: "fill_buckets empty_buckets (fst (drain (results z) h')) = Inr d"
  from bf have nb: "(case blank_parse P of None \<Rightarrow> None
            | Some b \<Rightarrow> (case call E b s False h of Inl e \<Rightarrow> None | Inr a \<Rightarrow> Some a)) = None"
    by (auto split: option.splits sum.splits)
  show "call E P s False h = build_address E s d"
    by (subst call_unfold) (simp add: nb pz collect_results_def fd)
qed

theorem required_field_completeness_witness:
  "set (required spec_env) = set HARD_COMPONENTS
   \<and> blank_parse (Parser_init spec_env []) = None
   \<and> call spec_env (Parser_init spec_env []) ''123 MAIN ST AUSTIN TX'' True []
       = Inr [(''house_number'', Some ''123''), (''st_name'', Some ''MAIN''),
              (''st_suffix'', Some ''ST''), (''st_NESW'', None), (''unit'', None),
              (''city'', Some ''AUSTIN''), (''us_state'', Some ''TX''), (''zip_code'', None),
              (''is_raw'', Some ''true''), (''orig'', Some ''123 MAIN ST AUSTIN TX'')]
   \<and> (\<exists>P' z h' d. P' \<in> set (parsers_of (Parser_init spec_env []))
          \<and> pipeline spec_env P' ''123 MAIN ST AUSTIN TX'' [] = Inr (z, h')
          \<and> fill_buckets empty_buckets (fst (drain (results z) h')) = Inr d
          \<and> map_of d ''house_number'' = Some [''123''] \<and> map_of d ''st_name'' = Some [''MAIN'']
          \<and> map_of d ''city'' = Some [''AUSTIN''] \<and> map_of d ''us_state'' = Some [''TX''])
   \<and> (\<exists>z h' d. pipeline spec_env (Parser_init spec_env []) ''MAIN ST AUSTIN TX'' [] = Inr (z, h')
          \<and> fill_buckets empty_buckets (fst (drain (results z) h')) = Inr d
          \<and> map_of d ''house_number'' = Some [])
   \<and> call spec_env (Parser_init spec_env []) ''MAIN ST AUSTIN TX'' True []
       = Inl (ParseError ''MAIN ST AUSTIN TX'' ''Could not identify house_number'')
   \<and> call spec_env (Parser_init spec_env []) ''MAIN ST AUSTIN TX'' False []
       = Inr [(''house_number'', Some []), (''st_name'', Some ''MAIN''),
              (''st_suffix'', Some ''ST''), (''st_NESW'', None), (''unit'', None),
              (''city'', Some ''AUSTIN''), (''us_state'', Some ''TX''), (''zip_code'', None),
              (''is_raw'', Some ''true''), (''orig'', Some ''MAIN ST AUSTIN TX'')]"
proof -
  let ?P = "Parser_init spec_env []"
  let ?A = "[(''house_number'', Some ''123''), (''st_name'', Some ''MAIN''),
              (''st_suffix'', Some ''ST''), (''st_NESW'', None), (''unit'', None),
              (''city'', Some ''AUSTIN''), (''us_state'', Some ''TX''), (''zip_code'', None),
              (''is_raw'', Some ''true''), (''orig'', Some ''123 MAIN ST AUSTIN TX'')]"
  have req: "set (required spec_env) = set HARD_COMPONENTS"
    by (simp add: spec_env_def)
  have bp: "blank_parse ?P = None"
    by (simp add: Parser_init_def Parser_core_def Let_def)
  have ok: "call spec_env ?P ''123 MAIN ST AUSTIN TX'' True [] = Inr ?A"
    by code_simp
  from required_field_completeness [OF req, of ?P "''123 MAIN ST AUSTIN TX''" "[]" ?A] ok
  obtain P' z h' d where a: "P' \<in> set (parsers_of ?P)"
      "pipeline spec_env P' ''123 MAIN ST AUSTIN TX'' [] = Inr (z, h')"
      "fill_buckets empty_buckets (fst (drain (results z) h')) = Inr d"
      "\<forall>f\<in>set HARD_COMPONENTS. \<exists>vs. map_of d f = Some vs \<and> vs \<noteq> []"
      "build_address spec_env ''123 MAIN ST AUSTIN TX'' d = Inr ?A"
    by blast
  have one: "set (parsers_of ?P) = {?P}"
    by (simp add: Parser_init_def Parser_core_def Let_def)
  have pd: "(case pipeline spec_env ?P ''123 MAIN ST AUSTIN TX'' [] of
               Inl e \<Rightarrow> False
             | Inr (z, h') \<Rightarrow>
                 (case fill_buckets empty_buckets (fst (drain (results z) h')) of
                    Inl e \<Rightarrow> False
                  | Inr d \<Rightarrow> map_of d ''house_number'' = Some [''123'']
                      \<and> map_of d ''st_name'' = Some [''MAIN'']
                      \<and> map_of d ''city'' = Some [''AUSTIN'']
                      \<and> map_of d ''us_state'' = Some [''TX'']))"
    by code_simp
  from a one pd
  have A: "\<exists>P' z h' d. P' \<in> set (parsers_of ?P)
          \<and> pipeline spec_env P' ''123 MAIN ST AUSTIN TX'' [] = Inr (z, h')
          \<and> fill_buckets empty_buckets (fst (drain (results z) h')) = Inr d
          \<and> map_of d ''house_number'' = Some [''123''] \<and> map_of d ''st_name'' = Some [''MAIN'']
          \<and> map_of d ''city'' = Some [''AUSTIN''] \<and> map_of d ''us_state'' = Some [''TX'']"
    by (auto split: sum.splits)
  have pe: "(case pipeline spec_env ?P ''MAIN ST AUSTIN TX'' [] of
               Inl e \<Rightarrow> False
             | Inr (z, h') \<Rightarrow>
                 (case fill_buckets empty_buckets (fst (drain (results z) h')) of
                    Inl e \<Rightarrow> False
                  | Inr d \<Rightarrow> map_of d ''house_number'' = Some []
                      \<and> map_of d ''st_name'' = Some [''MAIN'']
                      \<and> map_of d ''city'' = Some [''AUSTIN'']
                      \<and> map_of d ''us_state'' = Some [''TX'']
                      \<and> build_address spec_env ''MAIN ST AUSTIN TX'' d
                          = Inr [(''house_number'', Some []), (''st_name'', Some ''MAIN''),
              (''st_suffix'', Some ''ST''), (''st_NESW'', None), (''unit'', None),
              (''city'', Some ''AUSTIN''), (''us_state'', Some ''TX''), (''zip_code'', None),
              (''is_raw'', Some ''true''), (''orig'', Some ''MAIN ST AUSTIN TX'')]))"
    by code_simp
  obtain z2 h2 where pz2: "pipeline spec_env ?P ''MAIN ST AUSTIN TX'' [] = Inr (z2, h2)"
    using pe by (cases "pipeline spec_env ?P ''MAIN ST AUSTIN TX'' []") auto
  obtain d2 where fd2: "fill_buckets empty_buckets (fst (drain (results z2) h2)) = Inr d2"
    using pe pz2 by (cases "fill_buckets empty_buckets (fst (drain (results z2) h2))") auto
  from pe pz2 fd2
  have b: "pipeline spec_env ?P ''MAIN ST AUSTIN TX'' [] = Inr (z2, h2)"
      "fill_buckets empty_buckets (fst (drain (results z2) h2)) = Inr d2"
      "map_of d2 ''house_number'' = Some []" "map_of d2 ''st_name'' = Some [''MAIN'']"
      "map_of d2 ''city'' = Some [''AUSTIN'']" "map_of d2 ''us_state'' = Some [''TX'']"
      "build_address spec_env ''MAIN ST AUSTIN TX'' d2
         = Inr [(''house_number'', Some []), (''st_name'', Some ''MAIN''),
              (''st_suffix'', Some ''ST''), (''st_NESW'', None), (''unit'', None),
              (''city'', Some ''AUSTIN''), (''us_state'', Some ''TX''), (''zip_code'', None),
              (''is_raw'', Some ''true''), (''orig'', Some ''MAIN ST AUSTIN TX'')]"
    by simp_all
  have em: "\<exists>f\<in>set HARD_COMPONENTS. map_of d2 f = Some []"
    using b(3) by (simp add: HARD_COMPONENTS_def)
  from required_field_completeness [OF req, of ?P "''MAIN ST AUSTIN TX''" "[]" _ z2 h2 d2] bp b(1,2) em
  obtain f where f: "f \<in> set HARD_COMPONENTS" "map_of d2 f = Some []"
      "call spec_env ?P ''MAIN ST AUSTIN TX'' True []
         = Inl (ParseError ''MAIN ST AUSTIN TX'' (''Could not identify '' @ f))"
    by auto
  from f(1,2) b(3-6) have "f = ''house_number''"
    by (auto simp: HARD_COMPONENTS_def)
  with f have B: "call spec_env ?P ''MAIN ST AUSTIN TX'' True []
       = Inl (ParseError ''MAIN ST AUSTIN TX'' ''Could not identify house_number'')"
    by simp
  from required_field_completeness [OF req, of ?P "''MAIN ST AUSTIN TX''" "[]" _ z2 h2 d2] bp b(1,2,7)
  have C: "call spec_env ?P ''MAIN ST AUSTIN TX'' False []
       = Inr [(''house_number'', Some []), (''st_name'', Some ''MAIN''),
              (''st_suffix'', Some ''ST''), (''st_NESW'', None), (''unit'', None),
              (''city'', Some ''AUSTIN''), (''us_state'', Some ''TX''), (''zip_code'', None),
              (''is_raw'', Some ''true''), (''orig'', Some ''MAIN ST AUSTIN TX'')]"
    by simp
  have D: "\<exists>z h' d. pipeline spec_env ?P ''MAIN ST AUSTIN TX'' [] = Inr (z, h')
          \<and> fill_buckets empty_buckets (fst (drain (results z) h')) = Inr d
          \<and> map_of d ''house_number'' = Some []"
    using b by blast
  show ?thesis using req bp ok A B C D by simp
qed

section \<open>smart_batch\<close>

lemma pass1_deferred:
  "\<forall>s\<in>set pre. \<forall>e. p s = Inl e \<longrightarrow> deferrable e \<Longrightarrow>
   pass1 p city_of (pre @ adds) cities errs =
     (case pass1 p city_of pre cities errs of
        (ys, cities1, errs1, r) \<Rightarrow>
          (case pass1 p city_of adds cities1 errs1 of
             (ys2, cities2, errs2, r2) \<Rightarrow> (ys @ ys2, cities2, errs2, r2)))"
proof (induction pre arbitrary: cities errs)
  case Nil
  show ?case by (simp split: prod.splits)
next
  case (Cons a pre)
  show ?case
  proof (cases "p a")
    case (Inl e)
    with Cons.prems have "deferrable e" by simp
    with Inl Cons show ?thesis by (auto simp: deferrable_def)
  next
    case (Inr v)
    with Cons show ?thesis by (simp split: prod.splits)
  qed
qed

lemma pass1_yields:
  "\<forall>s\<in>set adds. \<forall>e. p s = Inl e \<longrightarrow> deferrable e \<Longrightarrow>
   fst (pass1 p city_of adds cities errs) = successes p adds \<and>
   snd (snd (snd (pass1 p city_of adds cities errs))) = None"
proof (induction adds arbitrary: cities errs)
  case Nil
  show ?case by simp
next
  case (Cons a adds)
  show ?case
  proof (cases "p a")
    case (Inl e)
    with Cons.prems have "deferrable e" by simp
    with Inl Cons show ?thesis by (auto simp: deferrable_def)
  next
    case (Inr v)
    obtain ys c1 e1 r where p1:
      "pass1 p city_of adds (set_add (city_of v) cities) errs = (ys, c1, e1, r)"
      by (cases "pass1 p city_of adds (set_add (city_of v) cities) errs") auto
    from Cons.prems have "\<forall>s\<in>set adds. \<forall>e. p s = Inl e \<longrightarrow> deferrable e" by simp
    from Cons.IH [OF this, of "set_add (city_of v) cities" errs] p1
    have "ys = successes p adds" "r = None" by simp_all
    with Inr p1 show ?thesis by simp
  qed
qed

lemma yielded_append: "yielded (xs @ ys) = yielded xs @ yielded ys"
  by (induction xs rule: yielded.induct) simp_all

lemma yielded_map_Yield: "yielded (map Yield ys) = ys"
  by (induction ys) simp_all

text \<open>
  C5. In pass 1, an input on which the parser fails with \<open>EndOfInputError\<close> or with a
  \<open>ParseError\<close> is put on the failure list, nothing is yielded for it and the loop goes
  on with the next input. No other error is caught: when the parser fails with any
  other error on an input, after inputs whose failures were all of the two caught
  kinds, the batch ends there with that error, having yielded the results of the
  earlier inputs; no later input is parsed and pass 2 does not run. A
  \<open>ParserConfigError\<close> is such an error.
\<close>

theorem smart_batch_error_policy:
  "p add = Inl e \<Longrightarrow>
     (deferrable e \<longrightarrow>
        pass1 p city_of (add # adds) cities errs = pass1 p city_of adds cities (errs @ [add]))
   \<and> (\<not> deferrable e \<longrightarrow>
        pass1 p city_of (add # adds) cities errs = ([], cities, errs, Some e))
   \<and> (\<not> deferrable e \<longrightarrow> (\<forall>s\<in>set pre. \<forall>e'. p s = Inl e' \<longrightarrow> deferrable e') \<longrightarrow>
        smart_batch p kc Parser_new city_of (pre @ add # adds) report_error
          = (map Yield (successes p pre), Some e))
   \<and> deferrable EndOfInputError \<and> deferrable (ParseError orig why)
   \<and> \<not> deferrable (ParserConfigError msg)"
proof -
  assume pe: "p add = Inl e"
  have a: "deferrable e \<Longrightarrow>
        pass1 p city_of (add # adds) cities errs = pass1 p city_of adds cities (errs @ [add])"
    using pe by (auto simp: deferrable_def)
  have b: "\<And>cities errs. \<not> deferrable e \<Longrightarrow>
        pass1 p city_of (add # adds) cities errs = ([], cities, errs, Some e)"
    using pe by (auto simp: deferrable_def)
  have c: "smart_batch p kc Parser_new city_of (pre @ add # adds) report_error
          = (map Yield (successes p pre), Some e)"
    if nd: "\<not> deferrable e" and pre: "\<forall>s\<in>set pre. \<forall>e'. p s = Inl e' \<longrightarrow> deferrable e'"
  proof -
    obtain ys c1 e1 r where p1: "pass1 p city_of pre [] [] = (ys, c1, e1, r)"
      by (cases "pass1 p city_of pre [] []") auto
    from pass1_yields [OF pre, of city_of "[]" "[]"] p1 have ys: "ys = successes p pre" by simp
    have "pass1 p city_of (pre @ add # adds) [] [] = (ys, c1, e1, Some e)"
      using pass1_deferred [OF pre, of city_of "add # adds" "[]" "[]"] p1 b [OF nd] by simp
    then show ?thesis by (simp add: smart_batch_def ys)
  qed
  have d: "deferrable EndOfInputError \<and> deferrable (ParseError orig why)
           \<and> \<not> deferrable (ParserConfigError msg)"
    by (simp add: deferrable_def)
  show ?thesis using a b c d by blast
qed

theorem smart_batch_error_policy_witness:
  "toy_parser ''m'' = Inl (ParseError ''m'' ''st_name'')
   \<and> deferrable (ParseError ''m'' ''st_name'')
   \<and> pass1 toy_parser toy_city (''m'' # [''c'']) [] [] = pass1 toy_parser toy_city [''c''] [] ([] @ [''m''])
   \<and> toy_parser ''a'' = Inl (ParserConfigError ''bad city list'')
   \<and> \<not> deferrable (ParserConfigError ''bad city list'')
   \<and> toy_parser ''b'' = Inr ''b''
   \<and> toy_parser ''e'' = Inl EndOfInputError \<and> deferrable EndOfInputError
   \<and> smart_batch toy_parser [] toy_Parser_new toy_city ([''b'', ''m'', ''e''] @ ''a'' # [''c'']) no_report
       = ([Yield ''b''], Some (ParserConfigError ''bad city list''))"
proof -
  have m: "toy_parser ''m'' = Inl (ParseError ''m'' ''st_name'')"
    by (simp add: toy_parser_def)
  have a: "toy_parser ''a'' = Inl (ParserConfigError ''bad city list'')"
    by (simp add: toy_parser_def)
  have pre: "\<forall>s\<in>set [''b'', ''m'', ''e'']. \<forall>e'. toy_parser s = Inl e' \<longrightarrow> deferrable e'"
    by (simp add: toy_parser_def deferrable_def)
  have nd: "\<not> deferrable (ParserConfigError ''bad city list'')"
    by (simp add: deferrable_def)
  have d: "deferrable (ParseError ''m'' ''st_name'')"
    by (simp add: deferrable_def)
  have s: "successes toy_parser [''b'', ''m'', ''e''] = [''b'']"
    by (simp add: toy_parser_def)
  from smart_batch_error_policy [where p = toy_parser and add = "''m''"
         and e = "ParseError ''m'' ''st_name''" and city_of = toy_city and adds = "[''c'']"
         and cities = "[]" and errs = "[]", OF m] d
  have one: "pass1 toy_parser toy_city (''m'' # [''c'']) [] []
               = pass1 toy_parser toy_city [''c''] [] ([] @ [''m''])"
    by blast
  from smart_batch_error_policy [where p = toy_parser and add = "''a''"
         and e = "ParserConfigError ''bad city list''" and city_of = toy_city
         and adds = "[''c'']" and pre = "[''b'', ''m'', ''e'']" and kc = "[]"
         and Parser_new = toy_Parser_new and report_error = no_report, OF a] nd pre
  have two: "smart_batch toy_parser [] toy_Parser_new toy_city
               ([''b'', ''m'', ''e''] @ ''a'' # [''c'']) no_report
             = (map Yield (successes toy_parser [''b'', ''m'', ''e'']),
                Some (ParserConfigError ''bad city list''))"
    by blast
  have b: "toy_parser ''b'' = Inr ''b''"
    by (simp add: toy_parser_def)
  have e: "toy_parser ''e'' = Inl EndOfInputError \<and> deferrable EndOfInputError"
    by (simp add: toy_parser_def deferrable_def)
  show ?thesis using m a b e nd d one two s by simp
qed

text \<open>
  C6, as stated: for every parser and input sequence, \<open>smart_batch\<close> yields at least as
  many results as there are inputs that the pass-1 parser parses. With a parser that
  fails on the first input with a \<open>ParserConfigError\<close> and parses the second, the batch
  ends at the first input: nothing is yielded, and one input parses.
\<close>

theorem repair_monotonicity_counterexample:
  "yielded (fst (smart_batch toy_parser [] toy_Parser_new toy_city [''a'', ''b''] no_report)) = []
   \<and> successes toy_parser [''a'', ''b''] = [''b'']"
  by (simp add: smart_batch_def toy_parser_def)

text \<open>
  C6, amended. For every parser, input sequence and reporter callback such that every
  failure of the pass-1 parser on an input is an \<open>EndOfInputError\<close> or a \<open>ParseError\<close>
  (the errors pass 1 catches), the sequence \<open>smart_batch\<close> yields begins with the
  results of the inputs that the pass-1 parser parses, in input order and unaltered;
  what pass 2 yields comes after them, so the number of yielded results is at least
  the number of those inputs.
\<close>

theorem repair_monotonicity:
  assumes "\<forall>s\<in>set adds. \<forall>e. p s = Inl e \<longrightarrow> deferrable e"
  shows "(\<exists>more. yielded (fst (smart_batch p kc Parser_new city_of adds report_error))
                  = successes p adds @ more)
       \<and> length (successes p adds)
           \<le> length (yielded (fst (smart_batch p kc Parser_new city_of adds report_error)))"
proof -
  obtain ys c1 e1 r where p1: "pass1 p city_of adds [] [] = (ys, c1, e1, r)"
    by (cases "pass1 p city_of adds [] []") auto
  from pass1_yields [OF assms, of city_of "[]" "[]"] p1
  have ys: "ys = successes p adds" and r: "r = None" by simp_all
  have "\<exists>more. yielded (fst (smart_batch p kc Parser_new city_of adds report_error))
                  = successes p adds @ more"
    by (auto simp: smart_batch_def p1 ys r yielded_append yielded_map_Yield
             split: sum.splits prod.splits)
  then show ?thesis by auto
qed

theorem repair_monotonicity_witness:
  "toy_parser ''b'' = Inr ''b'' \<and> toy_parser ''c'' = Inr ''c''
   \<and> toy_parser ''m'' = Inl (ParseError ''m'' ''st_name'')
   \<and> deferrable (ParseError ''m'' ''st_name'')
   \<and> successes toy_parser [''b'', ''m'', ''c''] = [''b'', ''c'']
   \<and> (\<exists>more. yielded (fst (smart_batch toy_parser [] toy_Parser_new toy_city
                             [''b'', ''m'', ''c''] no_report))
               = successes toy_parser [''b'', ''m'', ''c''] @ more)"
proof -
  have h: "\<forall>s\<in>set [''b'', ''m'', ''c'']. \<forall>e. toy_parser s = Inl e \<longrightarrow> deferrable e"
    by (simp add: toy_parser_def deferrable_def)
  have s: "successes toy_parser [''b'', ''m'', ''c''] = [''b'', ''c'']"
    by (simp add: toy_parser_def)
  have t: "toy_parser ''b'' = Inr ''b'' \<and> toy_parser ''c'' = Inr ''c''
           \<and> toy_parser ''m'' = Inl (ParseError ''m'' ''st_name'')
           \<and> deferrable (ParseError ''m'' ''st_name'')"
    by (simp add: toy_parser_def deferrable_def)
  from repair_monotonicity [OF h, of "[]" toy_Parser_new toy_city no_report] t s
  show ?thesis by blast
qed

end
